theory Spec2Isabelle
  imports Complex_Main "HOL-Library.Sublist"
begin

section \<open>Urban Heat Island dashboard: API client, application shell and map view\<close>

text \<open>
  The development follows the source files of the dashboard: the view model
  \<open>UHIViewModel\<close> (\<open>fetchUHIData\<close>, \<open>checkHealth\<close>, \<open>validateParameters\<close>), the
  \<open>App\<close> component that owns the React state and its handlers, and the \<open>MapView\<close>
  component.

  Numbers. The two request parameters are JavaScript numbers that the code only compares
  with the integer literals 10, 500, 7 and 90. A number is \<open>NaN\<close>, one of the two
  infinities, or finite, and a finite one is given by its value, a real: every finite
  double is a real and these comparisons are exact.
\<close>

subsection \<open>JavaScript numbers\<close>

datatype jsnum = NaN | NegInf | Num real | PosInf

text \<open>
  The relational operators \<open><\<close> and \<open>>\<close> on numbers: every comparison with \<open>NaN\<close> is
  false, and the infinities lie below and above every finite number.
\<close>

fun js_lt :: "jsnum \<Rightarrow> jsnum \<Rightarrow> bool" where
  "js_lt NaN y = False"
| "js_lt x NaN = False"
| "js_lt (Num a) (Num b) = (a < b)"
| "js_lt x NegInf = False"
| "js_lt NegInf y = True"
| "js_lt PosInf y = False"
| "js_lt (Num a) PosInf = True"

definition js_gt :: "jsnum \<Rightarrow> jsnum \<Rightarrow> bool" where
  "js_gt x y = js_lt y x"

subsection \<open>Values exchanged with the backend\<close>

text \<open>
  A JSON value, as \<open>response.json()\<close> delivers it. The statistics of a payload are
  passed through the application unread, so they are kept as such a value.
\<close>

datatype jsvalue =
    JNull
  | JBool bool
  | JNumber real
  | JString string
  | JArray "jsvalue list"
  | JObject "(string \<times> jsvalue) list"

text \<open>A sample point, with the fields \<open>MapView\<close> reads: \<open>d.lat\<close>, \<open>d.lon\<close>, \<open>d.zone\<close>,
  \<open>d.recommendation\<close>.\<close>

record point =
  lat :: real
  lon :: real
  zone :: int
  recommendation :: string

text \<open>
  The body of the data endpoint, \<open>{ success, data, statistics, error? }\<close>. The fields are
  typed as the interface of the backend gives them: \<open>success\<close> a boolean, \<open>data\<close> an array
  of points, \<open>error\<close> an optional string (\<open>None\<close> when the key is absent).
\<close>

record payload =
  result_success :: bool
  result_data :: "point list"
  result_statistics :: jsvalue
  result_error :: "string option"

text \<open>A thrown JavaScript value: the name of its constructor and its message.\<close>

datatype js_error = JsError (err_name: string) (message: string)

text \<open>
  A \<open>Response\<close> of the fetch API: its status code and what \<open>response.json()\<close> settles to
  (the decoded body, or the error it rejects with when the body is not JSON).
  \<open>response.ok\<close> is the getter of the fetch standard: the status is in the range 200-299.
\<close>

record response =
  status :: nat
  json :: "js_error + payload"

definition ok :: "response \<Rightarrow> bool" where
  "ok r = (200 \<le> status r \<and> status r \<le> 299)"

text \<open>What \<open>await fetch(url)\<close> does: it throws (network failure) or yields a response.\<close>

datatype fetch_outcome = Rejected js_error | Resolved response

definition await_fetch :: "fetch_outcome \<Rightarrow> js_error + response" where
  "await_fetch outcome = (case outcome of Rejected e \<Rightarrow> Inl e | Resolved r \<Rightarrow> Inr r)"

text \<open>The two requests of the client, without the base URL.\<close>

datatype request = HealthRequest | UhiRequest jsnum jsnum

subsection \<open>JavaScript helpers\<close>

text \<open>Decimal rendering of a natural number, as a template literal prints a status code.\<close>

definition digit :: "nat \<Rightarrow> char" where
  "digit n = ''0123456789'' ! n"

fun dec :: "nat \<Rightarrow> string" where
  "dec n = (if n < 10 then [digit n] else dec (n div 10) @ [digit (n mod 10)])"

declare dec.simps [simp del]

text \<open>\<open>a || b\<close> on an optional string \<open>a\<close>: an absent or empty \<open>a\<close> is falsy.\<close>

definition js_or :: "string option \<Rightarrow> string \<Rightarrow> string" where
  "js_or a b = (case a of None \<Rightarrow> b | Some s \<Rightarrow> if s = [] then b else s)"

text \<open>\<open>errors.join(sep)\<close>.\<close>

fun join :: "string \<Rightarrow> string list \<Rightarrow> string" where
  "join sep [] = []"
| "join sep [x] = x"
| "join sep (x # y # ys) = x @ sep @ join sep (y # ys)"

text \<open>\<open>try { body } catch (e) { handler }\<close> on a computation that returns or throws.\<close>

definition try_catch :: "js_error + 'a \<Rightarrow> (js_error \<Rightarrow> js_error + 'a) \<Rightarrow> js_error + 'a" where
  "try_catch body handler = (case body of Inl e \<Rightarrow> handler e | Inr v \<Rightarrow> Inr v)"

subsection \<open>The platform's \<open>Date\<close>\<close>

text \<open>
  \<open>new Date()\<close> reads the clock: a time value, the milliseconds since the epoch, an integer.
  \<open>toISOString\<close> renders a time value in the date time string format, on the UTC time
  scale. The definitions follow the ECMAScript language specification (Date objects:
  day number and time within day, year number, month number, date number, hours,
  minutes, seconds and milliseconds, date time string format), with its names.
\<close>

definition msPerDay :: int where
  "msPerDay = 86400000"

definition Day :: "int \<Rightarrow> int" where
  "Day t = t div msPerDay"

definition DaysInYear :: "int \<Rightarrow> int" where
  "DaysInYear y =
     (if y mod 4 \<noteq> 0 then 365
      else if y mod 100 \<noteq> 0 then 366
      else if y mod 400 \<noteq> 0 then 365
      else 366)"

definition DayFromYear :: "int \<Rightarrow> int" where
  "DayFromYear y =
     365 * (y - 1970) + (y - 1969) div 4 - (y - 1901) div 100 + (y - 1601) div 400"

definition TimeFromYear :: "int \<Rightarrow> int" where
  "TimeFromYear y = msPerDay * DayFromYear y"

text \<open>
  \<open>YearFromTime(t)\<close> is the largest \<open>y\<close> such that \<open>TimeFromYear(y)\<close> is at most \<open>t\<close>. It is
  computed by a search upwards from a year that is not after it. That the search ends,
  and that it finds this year, is shown with the facts about the calendar below.
\<close>

function year_search :: "int \<Rightarrow> int \<Rightarrow> int" where
  "year_search y d = (if DayFromYear (y + 1) \<le> d then year_search (y + 1) d else y)"
  by pat_completeness auto

definition YearFromTime :: "int \<Rightarrow> int" where
  "YearFromTime t =
     year_search (1970 + (if Day t < 0 then Day t div 365 else Day t div 366)) (Day t)"

definition InLeapYear :: "int \<Rightarrow> int" where
  "InLeapYear t = (if DaysInYear (YearFromTime t) = 366 then 1 else 0)"

definition DayWithinYear :: "int \<Rightarrow> int" where
  "DayWithinYear t = Day t - DayFromYear (YearFromTime t)"

definition MonthFromTime :: "int \<Rightarrow> int" where
  "MonthFromTime t =
     (let d = DayWithinYear t; l = InLeapYear t
      in if d < 31 then 0
         else if d < 59 + l then 1
         else if d < 90 + l then 2
         else if d < 120 + l then 3
         else if d < 151 + l then 4
         else if d < 181 + l then 5
         else if d < 212 + l then 6
         else if d < 243 + l then 7
         else if d < 273 + l then 8
         else if d < 304 + l then 9
         else if d < 334 + l then 10
         else 11)"

definition DateFromTime :: "int \<Rightarrow> int" where
  "DateFromTime t =
     (let d = DayWithinYear t; l = InLeapYear t; m = MonthFromTime t
      in if m = 0 then d + 1
         else if m = 1 then d - 30
         else if m = 2 then d - 58 - l
         else if m = 3 then d - 89 - l
         else if m = 4 then d - 119 - l
         else if m = 5 then d - 150 - l
         else if m = 6 then d - 180 - l
         else if m = 7 then d - 211 - l
         else if m = 8 then d - 242 - l
         else if m = 9 then d - 272 - l
         else if m = 10 then d - 303 - l
         else d - 333 - l)"

definition HourFromTime :: "int \<Rightarrow> int" where
  "HourFromTime t = (t div 3600000) mod 24"

definition MinFromTime :: "int \<Rightarrow> int" where
  "MinFromTime t = (t div 60000) mod 60"

definition SecFromTime :: "int \<Rightarrow> int" where
  "SecFromTime t = (t div 1000) mod 60"

definition msFromTime :: "int \<Rightarrow> int" where
  "msFromTime t = t mod 1000"

text \<open>Decimal fields of two, three, four and six digits, with leading zeros.\<close>

definition two :: "nat \<Rightarrow> string" where
  "two n = [digit (n div 10 mod 10), digit (n mod 10)]"

definition three :: "nat \<Rightarrow> string" where
  "three n = digit (n div 100 mod 10) # two n"

definition four :: "nat \<Rightarrow> string" where
  "four n = digit (n div 1000 mod 10) # three n"

definition six :: "nat \<Rightarrow> string" where
  "six n = digit (n div 100000 mod 10) # digit (n div 10000 mod 10) # four n"

text \<open>
  The year: four digits from 0 to 9999, and the expanded form, a sign and six digits,
  outside.
\<close>

definition year_string :: "int \<Rightarrow> string" where
  "year_string y =
     (if 0 \<le> y \<and> y \<le> 9999 then four (nat y)
      else (if y < 0 then ''-'' else ''+'') @ six (nat \<bar>y\<bar>))"

definition toISOString :: "int \<Rightarrow> string" where
  "toISOString t =
     year_string (YearFromTime t) @ ''-'' @ two (nat (MonthFromTime t + 1)) @ ''-'' @
     two (nat (DateFromTime t)) @ ''T'' @ two (nat (HourFromTime t)) @ '':'' @
     two (nat (MinFromTime t)) @ '':'' @ two (nat (SecFromTime t)) @ ''.'' @
     three (nat (msFromTime t)) @ ''Z''"

subsection \<open>ISO 8601 timestamps\<close>

text \<open>
  For comparison with what the code produces, a check of the calendar date
  \<open>YYYY-MM-DD\<close>, of the time \<open>HH:mm:ss.sssZ\<close> and of the timestamp made of the two with
  a \<open>T\<close> between them: the digits and separators are in their places, the month is
  1 to 12, the day is a day of that month of that year, the hour is at most 23, the
  minute and the second at most 59.
\<close>

definition is_digit :: "char \<Rightarrow> bool" where
  "is_digit c = (c \<in> set ''0123456789'')"

definition digit_value :: "char \<Rightarrow> nat" where
  "digit_value c = of_char c - 48"

definition number :: "string \<Rightarrow> nat" where
  "number s = foldl (\<lambda>a c. 10 * a + digit_value c) 0 s"

definition days_in_month :: "nat \<Rightarrow> nat \<Rightarrow> nat" where
  "days_in_month y m =
     (if m = 2 then (if DaysInYear (int y) = 366 then 29 else 28)
      else if m = 4 \<or> m = 6 \<or> m = 9 \<or> m = 11 then 30
      else 31)"

definition iso8601_date :: "string \<Rightarrow> bool" where
  "iso8601_date s =
     (length s = 10 \<and> list_all is_digit (take 4 s) \<and> s ! 4 = CHR ''-'' \<and>
      list_all is_digit (take 2 (drop 5 s)) \<and> s ! 7 = CHR ''-'' \<and>
      list_all is_digit (drop 8 s) \<and>
      1 \<le> number (take 2 (drop 5 s)) \<and> number (take 2 (drop 5 s)) \<le> 12 \<and>
      1 \<le> number (drop 8 s) \<and>
      number (drop 8 s) \<le> days_in_month (number (take 4 s)) (number (take 2 (drop 5 s))))"

definition iso8601_time :: "string \<Rightarrow> bool" where
  "iso8601_time s =
     (length s = 13 \<and> list_all is_digit (take 2 s) \<and> s ! 2 = CHR '':'' \<and>
      list_all is_digit (take 2 (drop 3 s)) \<and> s ! 5 = CHR '':'' \<and>
      list_all is_digit (take 2 (drop 6 s)) \<and> s ! 8 = CHR ''.'' \<and>
      list_all is_digit (take 3 (drop 9 s)) \<and> s ! 12 = CHR ''Z'' \<and>
      number (take 2 s) \<le> 23 \<and> number (take 2 (drop 3 s)) \<le> 59 \<and>
      number (take 2 (drop 6 s)) \<le> 59)"

definition iso8601 :: "string \<Rightarrow> bool" where
  "iso8601 s = (iso8601_date (take 10 s) \<and> s ! 10 = CHR ''T'' \<and> iso8601_time (drop 11 s))"

subsection \<open>The view model \<open>UHIViewModel\<close>\<close>

text \<open>
  \<open>fetchUHIData\<close> sends one request and turns what the network did into a result:
  \<open>Inl\<close> is a thrown error, \<open>Inr\<close> the returned payload. Both \<open>throw\<close> statements of the
  source construct a plain \<open>Error\<close>.
  Its only caller passes both arguments, so the default values of the parameters
  play no part.
\<close>

definition fetchUHIData_request :: "jsnum \<Rightarrow> jsnum \<Rightarrow> request" where
  "fetchUHIData_request numPoints daysBack = UhiRequest numPoints daysBack"

definition fetchUHIData :: "jsnum \<Rightarrow> jsnum \<Rightarrow> fetch_outcome \<Rightarrow> js_error + payload" where
  "fetchUHIData numPoints daysBack outcome =
     (case await_fetch outcome of
        Inl e \<Rightarrow> Inl e
      | Inr response \<Rightarrow>
          if \<not> ok response
          then Inl (JsError ''Error'' (''HTTP error! status: '' @ dec (status response)))
          else (case json response of
                  Inl e \<Rightarrow> Inl e
                | Inr result \<Rightarrow>
                    if \<not> result_success result
                    then Inl (JsError ''Error'' (js_or (result_error result) ''API returned error''))
                    else Inr result))"

definition checkHealth :: "fetch_outcome \<Rightarrow> js_error + bool" where
  "checkHealth outcome =
     try_catch
       (case await_fetch outcome of Inl e \<Rightarrow> Inl e | Inr response \<Rightarrow> Inr (ok response))
       (\<lambda>error. Inr False)"

definition validateParameters :: "jsnum \<Rightarrow> jsnum \<Rightarrow> string list" where
  "validateParameters numPoints daysBack =
     (let errors = [];
          errors = (if js_lt numPoints (Num 10) \<or> js_gt numPoints (Num 500)
                    then errors @ [''Number of points must be between 10 and 500'']
                    else errors);
          errors = (if js_lt daysBack (Num 7) \<or> js_gt daysBack (Num 90)
                    then errors @ [''Days back must be between 7 and 90'']
                    else errors)
      in errors)"

text \<open>
  For comparison with the code, what it is for a value to lie within an interval
  \<open>[lo, hi]\<close>: it is a finite number between the bounds. \<open>NaN\<close> and the infinities lie
  within no interval.
\<close>

definition in_interval :: "real \<Rightarrow> real \<Rightarrow> jsnum \<Rightarrow> bool" where
  "in_interval lo hi x = (case x of Num v \<Rightarrow> lo \<le> v \<and> v \<le> hi | _ \<Rightarrow> False)"

subsection \<open>The state of \<open>App\<close>\<close>

text \<open>
  One field for each \<open>useState\<close> of the component. \<open>None\<close> is \<open>null\<close>. The selected zone
  is whatever value the legend hands to \<open>handleZoneFilter\<close>; it starts as the string
  \<open>"all"\<close>.
\<close>

record shell =
  showHeader :: bool
  uhiData :: "point list option"
  statistics :: "jsvalue option"
  loading :: bool
  error :: "string option"
  backendHealthy :: bool
  numPoints :: jsnum
  daysBack :: jsnum
  selectedZone :: jsvalue
  selectedPoint :: "point option"
  showHeatmap :: bool
  activeView :: string

definition init :: shell where
  "init = \<lparr> showHeader = True, uhiData = None, statistics = None, loading = True,
            error = None, backendHealthy = False, numPoints = Num 100, daysBack = Num 30,
            selectedZone = JString ''all'', selectedPoint = None, showHeatmap = False,
            activeView = ''map'' \<rparr>"

text \<open>The object that \<open>handleExportData\<close> serialises and offers for download.\<close>

record export_doc =
  doc_data :: "point list"
  doc_statistics :: "jsvalue option"
  exportedAt :: string

text \<open>
  What a handler does, in program order: calls of the state setters, requests sent,
  a console trace, a download offered to the user.
\<close>

datatype action =
    SetShowHeader bool
  | SetUhiData "point list"
  | SetStatistics jsvalue
  | SetLoading bool
  | SetError "string option"
  | SetBackendHealthy bool
  | SetNumPoints jsnum
  | SetDaysBack jsnum
  | SetSelectedZone jsvalue
  | SetSelectedPoint point
  | SetShowHeatmap bool
  | SetActiveView string
  | Fetch request
  | ConsoleError js_error
  | Download string export_doc

fun apply_action :: "action \<Rightarrow> shell \<Rightarrow> shell" where
  "apply_action (SetShowHeader b) s = s\<lparr>showHeader := b\<rparr>"
| "apply_action (SetUhiData d) s = s\<lparr>uhiData := Some d\<rparr>"
| "apply_action (SetStatistics st) s = s\<lparr>statistics := Some st\<rparr>"
| "apply_action (SetLoading b) s = s\<lparr>loading := b\<rparr>"
| "apply_action (SetError e) s = s\<lparr>error := e\<rparr>"
| "apply_action (SetBackendHealthy b) s = s\<lparr>backendHealthy := b\<rparr>"
| "apply_action (SetNumPoints n) s = s\<lparr>numPoints := n\<rparr>"
| "apply_action (SetDaysBack d) s = s\<lparr>daysBack := d\<rparr>"
| "apply_action (SetSelectedZone z) s = s\<lparr>selectedZone := z\<rparr>"
| "apply_action (SetSelectedPoint p) s = s\<lparr>selectedPoint := Some p\<rparr>"
| "apply_action (SetShowHeatmap b) s = s\<lparr>showHeatmap := b\<rparr>"
| "apply_action (SetActiveView v) s = s\<lparr>activeView := v\<rparr>"
| "apply_action (Fetch r) s = s"
| "apply_action (ConsoleError e) s = s"
| "apply_action (Download name doc) s = s"

definition exec :: "action list \<Rightarrow> shell \<Rightarrow> shell" where
  "exec as s = fold apply_action as s"

text \<open>The network calls among the actions of a handler.\<close>

fun requests :: "action list \<Rightarrow> request list" where
  "requests [] = []"
| "requests (Fetch r # as) = r # requests as"
| "requests (a # as) = requests as"

text \<open>The actions that write the data or the statistics.\<close>

fun writes_data :: "action \<Rightarrow> bool" where
  "writes_data (SetUhiData d) = True"
| "writes_data (SetStatistics st) = True"
| "writes_data a = False"

subsection \<open>The handlers of \<open>App\<close>\<close>

definition checkBackendHealth :: "fetch_outcome \<Rightarrow> action list" where
  "checkBackendHealth outcome =
     Fetch HealthRequest #
     (case checkHealth outcome of
        Inl e \<Rightarrow> []
      | Inr healthy \<Rightarrow>
          SetBackendHealthy healthy #
          (if \<not> healthy
           then [SetError (Some ''Backend server is not responding. Please try again later.''),
                 SetLoading False]
           else []))"

text \<open>
  \<open>loadUHIData\<close> runs in two parts, cut at its \<open>await\<close>. The first part sets the loading
  flag, clears the error and validates; with an invalid parameter it reports, resets the
  flag in the branch and once more in \<open>finally\<close>, and returns; otherwise it sends the
  request and suspends. The second part runs when the request has settled.
\<close>

definition loadUHIData_begin :: "shell \<Rightarrow> action list" where
  "loadUHIData_begin s =
     [SetLoading True, SetError None] @
     (let errors = validateParameters (numPoints s) (daysBack s)
      in if length errors > 0
         then [SetError (Some (join ''. '' errors)), SetLoading False] @ [SetLoading False]
         else [Fetch (fetchUHIData_request (numPoints s) (daysBack s))])"

definition loadUHIData_suspends :: "shell \<Rightarrow> bool" where
  "loadUHIData_suspends s = (\<not> length (validateParameters (numPoints s) (daysBack s)) > 0)"

definition loadUHIData_resume :: "jsnum \<Rightarrow> jsnum \<Rightarrow> fetch_outcome \<Rightarrow> action list" where
  "loadUHIData_resume n d outcome =
     (case fetchUHIData n d outcome of
        Inr result \<Rightarrow> [SetUhiData (result_data result), SetStatistics (result_statistics result)]
      | Inl err \<Rightarrow>
          [SetError (Some (js_or (Some (message err)) ''Failed to load UHI data'')),
           ConsoleError err]) @
     [SetLoading False]"

text \<open>One whole load cycle, for a request that settles with \<open>outcome\<close>.\<close>

definition loadUHIData :: "shell \<Rightarrow> fetch_outcome \<Rightarrow> action list" where
  "loadUHIData s outcome =
     loadUHIData_begin s @
     (if loadUHIData_suspends s then loadUHIData_resume (numPoints s) (daysBack s) outcome else [])"

definition handleRefresh :: "shell \<Rightarrow> action list" where
  "handleRefresh s = loadUHIData_begin s"

definition handleApplyFilters :: "shell \<Rightarrow> action list" where
  "handleApplyFilters s = loadUHIData_begin s"

definition handleZoneFilter :: "jsvalue \<Rightarrow> action list" where
  "handleZoneFilter z = [SetSelectedZone z]"

definition handlePointClick :: "point \<Rightarrow> action list" where
  "handlePointClick point = [SetSelectedPoint point]"

text \<open>
  \<open>handleExportData\<close>. The argument \<open>toISO\<close> stands for the method \<open>toISOString\<close> of the
  platform's \<open>Date\<close>, which is \<open>toISOString\<close> above; \<open>t1\<close> and \<open>t2\<close> are the readings of
  the clock by the two \<open>new Date()\<close> of the handler.
  \<open>s.split("T")[0]\<close> is the part of \<open>s\<close> before its first \<open>T\<close>.
\<close>

definition handleExportData :: "(int \<Rightarrow> string) \<Rightarrow> int \<Rightarrow> int \<Rightarrow> shell \<Rightarrow> action list" where
  "handleExportData toISO t1 t2 s =
     (case uhiData s of
        None \<Rightarrow> []
      | Some d \<Rightarrow>
          [Download
             (''uhi-analysis-'' @ takeWhile (\<lambda>c. c \<noteq> CHR ''T'') (toISO t2) @ ''.json'')
             \<lparr> doc_data = d, doc_statistics = statistics s, exportedAt = toISO t1 \<rparr>])"

subsection \<open>The application as a state machine\<close>

text \<open>
  An event is one run of a handler or of the continuation of a pending load; JavaScript
  runs each to completion. \<open>Mount\<close> is the first render with its health check,
  \<open>LoadSettled\<close> the second part of \<open>loadUHIData\<close>, with the parameters the call was made
  with. The machine does not restrict when a load settles or which controls are enabled,
  so it has every behaviour of the application and more.
\<close>

datatype event =
    Mount fetch_outcome
  | Refresh
  | ApplyFilters
  | LoadSettled jsnum jsnum fetch_outcome
  | ZoneFilter jsvalue
  | PointClick point
  | NumPointsChange jsnum
  | DaysBackChange jsnum
  | HeatmapToggle bool
  | ViewTab string
  | ErrorClose
  | Export int int

fun handler :: "(int \<Rightarrow> string) \<Rightarrow> event \<Rightarrow> shell \<Rightarrow> action list" where
  "handler toISO (Mount outcome) s = checkBackendHealth outcome"
| "handler toISO Refresh s = handleRefresh s"
| "handler toISO ApplyFilters s = handleApplyFilters s"
| "handler toISO (LoadSettled n d outcome) s = loadUHIData_resume n d outcome"
| "handler toISO (ZoneFilter z) s = handleZoneFilter z"
| "handler toISO (PointClick p) s = handlePointClick p"
| "handler toISO (NumPointsChange n) s = [SetNumPoints n]"
| "handler toISO (DaysBackChange d) s = [SetDaysBack d]"
| "handler toISO (HeatmapToggle b) s = [SetShowHeatmap b]"
| "handler toISO (ViewTab v) s = [SetActiveView v]"
| "handler toISO ErrorClose s = [SetError None]"
| "handler toISO (Export t1 t2) s = handleExportData toISO t1 t2 s"

text \<open>
  The effect with the dependency list \<open>[backendHealthy]\<close>: after a render in which the
  flag has changed it runs, and loads when the flag is set.
\<close>

definition effect_backendHealthy :: "shell \<Rightarrow> shell \<Rightarrow> action list" where
  "effect_backendHealthy s s' =
     (if backendHealthy s' \<noteq> backendHealthy s \<and> backendHealthy s'
      then loadUHIData_begin s' else [])"

definition dispatch :: "(int \<Rightarrow> string) \<Rightarrow> event \<Rightarrow> shell \<Rightarrow> shell" where
  "dispatch toISO ev s =
     (let s' = exec (handler toISO ev s) s
      in exec (effect_backendHealthy s s') s')"

definition network_calls :: "(int \<Rightarrow> string) \<Rightarrow> event \<Rightarrow> shell \<Rightarrow> request list" where
  "network_calls toISO ev s =
     requests (handler toISO ev s) @
     requests (effect_backendHealthy s (exec (handler toISO ev s) s))"

definition run :: "(int \<Rightarrow> string) \<Rightarrow> event list \<Rightarrow> shell \<Rightarrow> shell" where
  "run toISO evs s = fold (dispatch toISO) evs s"

text \<open>The payload of the last load of a trace that succeeded, if there is one.\<close>

fun last_loaded :: "event list \<Rightarrow> payload option" where
  "last_loaded [] = None"
| "last_loaded (LoadSettled n d outcome # evs) =
     (case last_loaded evs of
        Some p \<Rightarrow> Some p
      | None \<Rightarrow> (case fetchUHIData n d outcome of Inr p \<Rightarrow> Some p | Inl e \<Rightarrow> None))"
| "last_loaded (ev # evs) = last_loaded evs"

text \<open>
  Time. A timed trace gives with each event the milliseconds elapsed since the event
  before it, a natural number: the clock does not run backwards. \<open>instants\<close> pairs each
  event with the reading of the clock when it runs, from a clock that reads \<open>t0\<close> at the
  start, and \<open>clock_after\<close> is the reading after the whole trace.
\<close>

fun instants :: "int \<Rightarrow> (nat \<times> event) list \<Rightarrow> (int \<times> event) list" where
  "instants now [] = []"
| "instants now ((elapsed, ev) # tevs) =
     (now + int elapsed, ev) # instants (now + int elapsed) tevs"

fun clock_after :: "int \<Rightarrow> (nat \<times> event) list \<Rightarrow> int" where
  "clock_after now [] = now"
| "clock_after now ((elapsed, ev) # tevs) = clock_after (now + int elapsed) tevs"

text \<open>
  The payload of the last load that succeeded, with the instant at which it settled.
\<close>

fun last_loaded_at :: "(int \<times> event) list \<Rightarrow> (int \<times> payload) option" where
  "last_loaded_at [] = None"
| "last_loaded_at ((t, LoadSettled n d outcome) # tevs) =
     (case last_loaded_at tevs of
        Some tp \<Rightarrow> Some tp
      | None \<Rightarrow> (case fetchUHIData n d outcome of Inr p \<Rightarrow> Some (t, p) | Inl e \<Rightarrow> None))"
| "last_loaded_at (tev # tevs) = last_loaded_at tevs"

subsection \<open>The component \<open>MapView\<close>\<close>

text \<open>
  The component is declared without parameters, so the properties its parent passes
  (the points, the selected zone, the heat map switch) are not read. It draws the
  elements of its own state \<open>data\<close>, which its effect fills from its own request.
\<close>

record mapview_props =
  prop_data :: "point list"
  prop_selectedZone :: jsvalue
  prop_showHeatmap :: bool

record marker =
  marker_key :: nat
  latitude :: real
  longitude :: real
  background :: string
  title :: string

definition MapView :: "mapview_props \<Rightarrow> point list \<Rightarrow> marker list" where
  "MapView props data =
     map (\<lambda>(i, d).
            \<lparr> marker_key = i, latitude = lat d, longitude = lon d,
              background = (if zone d = 2 then ''red''
                            else if zone d = 1 then ''orange'' else ''green''),
              title = recommendation d \<rparr>)
         (enumerate 0 data)"

text \<open>
  The markers as section 4.3 of the specification words them, for comparison: one marker
  for each point of the collection handed down that is not outside the selected zone,
  where the selection \<open>"all"\<close> excludes nothing.
\<close>

definition in_filter :: "jsvalue \<Rightarrow> point \<Rightarrow> bool" where
  "in_filter sel d = (sel = JString ''all'' \<or> sel = JNumber (of_int (zone d)))"

definition spec_markers :: "mapview_props \<Rightarrow> marker list" where
  "spec_markers props =
     map (\<lambda>(i, d).
            \<lparr> marker_key = i, latitude = lat d, longitude = lon d,
              background = (if zone d = 2 then ''red''
                            else if zone d = 1 then ''orange'' else ''green''),
              title = recommendation d \<rparr>)
         (enumerate 0 (filter (in_filter (prop_selectedZone props)) (prop_data props)))"

section \<open>Auxiliary facts\<close>

lemma js_or_nonempty: "b \<noteq> [] \<Longrightarrow> js_or a b \<noteq> []"
  by (simp add: js_or_def split: option.splits)

lemma js_or_Some_nonempty: "m \<noteq> [] \<Longrightarrow> js_or (Some m) b = m"
  by (simp add: js_or_def)

lemma exec_Cons: "exec (a # as) s = exec as (apply_action a s)"
  by (simp add: exec_def)

lemma requests_append: "requests (as @ bs) = requests as @ requests bs"
  by (induction as rule: requests.induct) simp_all

lemma begin_no_writes: "\<forall>a \<in> set (loadUHIData_begin s). \<not> writes_data a"
  by (simp add: loadUHIData_begin_def Let_def)

lemma exec_no_writes:
  "\<forall>a \<in> set as. \<not> writes_data a \<Longrightarrow>
   uhiData (exec as s) = uhiData s \<and> statistics (exec as s) = statistics s"
proof (induction as arbitrary: s)
  case Nil
  show ?case by (simp add: exec_def)
next
  case (Cons a as)
  then have "uhiData (exec as (apply_action a s)) = uhiData (apply_action a s)"
    "statistics (exec as (apply_action a s)) = statistics (apply_action a s)"
    by simp_all
  moreover from Cons.prems have "\<not> writes_data a" by simp
  then have "uhiData (apply_action a s) = uhiData s \<and> statistics (apply_action a s) = statistics s"
    by (cases a) simp_all
  ultimately show ?case by (simp add: exec_Cons)
qed

lemma fetchUHIData_fails:
  assumes "(\<exists>e. outcome = Rejected e) \<or>
           (\<exists>r. outcome = Resolved r \<and>
                (\<not> ok r \<or> (\<exists>e. json r = Inl e) \<or> (\<exists>p. json r = Inr p \<and> \<not> result_success p)))"
  shows "\<exists>e. fetchUHIData n d outcome = Inl e"
proof (cases outcome)
  case (Rejected e)
  then show ?thesis by (simp add: fetchUHIData_def await_fetch_def)
next
  case (Resolved r)
  with assms have "\<not> ok r \<or> (\<exists>e. json r = Inl e) \<or> (\<exists>p. json r = Inr p \<and> \<not> result_success p)"
    by simp
  with Resolved show ?thesis
    by (cases "ok r") (auto simp: fetchUHIData_def await_fetch_def)
qed

lemma effect_no_writes: "\<forall>a \<in> set (effect_backendHealthy s s'). \<not> writes_data a"
  using begin_no_writes [of s'] by (simp add: effect_backendHealthy_def)

lemma dispatch_data:
  "uhiData (dispatch toISO ev s) = uhiData (exec (handler toISO ev s) s) \<and>
   statistics (dispatch toISO ev s) = statistics (exec (handler toISO ev s) s)"
  using exec_no_writes [OF effect_no_writes] by (simp add: dispatch_def Let_def)

lemma handler_no_writes:
  assumes "\<not> (\<exists>n d outcome p. ev = LoadSettled n d outcome \<and> fetchUHIData n d outcome = Inr p)"
  shows "\<forall>a \<in> set (handler toISO ev s). \<not> writes_data a"
proof (cases ev)
  case (Mount outcome)
  then show ?thesis
    by (auto simp: checkBackendHealth_def split: sum.splits if_splits)
next
  case (LoadSettled n d outcome)
  with assms obtain e where "fetchUHIData n d outcome = Inl e"
    by (cases "fetchUHIData n d outcome") auto
  with LoadSettled show ?thesis
    by (simp add: loadUHIData_resume_def)
next
  case (Export t1 t2)
  then show ?thesis by (auto simp: handleExportData_def split: option.splits)
qed (simp_all add: handleRefresh_def handleApplyFilters_def handleZoneFilter_def
    handlePointClick_def begin_no_writes)

lemma dispatch_other:
  assumes "\<not> (\<exists>n d outcome p. ev = LoadSettled n d outcome \<and> fetchUHIData n d outcome = Inr p)"
  shows "uhiData (dispatch toISO ev s) = uhiData s \<and> statistics (dispatch toISO ev s) = statistics s"
  using exec_no_writes [OF handler_no_writes [OF assms]] by (simp add: dispatch_data)

lemma dispatch_loaded:
  assumes "fetchUHIData n d outcome = Inr p"
  shows "uhiData (dispatch toISO (LoadSettled n d outcome) s) = Some (result_data p) \<and>
         statistics (dispatch toISO (LoadSettled n d outcome) s) = Some (result_statistics p)"
  using assms by (simp add: dispatch_data loadUHIData_resume_def exec_def)

lemma run_Cons: "run toISO (ev # evs) s = run toISO evs (dispatch toISO ev s)"
  by (simp add: run_def)

lemma run_data:
  "uhiData (run toISO evs s) =
     (case last_loaded evs of None \<Rightarrow> uhiData s | Some p \<Rightarrow> Some (result_data p)) \<and>
   statistics (run toISO evs s) =
     (case last_loaded evs of None \<Rightarrow> statistics s | Some p \<Rightarrow> Some (result_statistics p))"
proof (induction evs arbitrary: s)
  case Nil
  show ?case by (simp add: run_def)
next
  case (Cons ev evs)
  show ?case
  proof (cases "\<exists>n d outcome p. ev = LoadSettled n d outcome \<and> fetchUHIData n d outcome = Inr p")
    case True
    then obtain n d outcome p where ev: "ev = LoadSettled n d outcome"
      and p: "fetchUHIData n d outcome = Inr p" by blast
    from dispatch_loaded [OF p, of toISO s] Cons.IH [of "dispatch toISO ev s"] ev p
    show ?thesis by (simp add: run_Cons split: option.splits)
  next
    case False
    note other = this
    have same: "last_loaded (ev # evs) = last_loaded evs"
    proof (cases ev)
      case (LoadSettled n d outcome)
      with other obtain e where "fetchUHIData n d outcome = Inl e"
        by (cases "fetchUHIData n d outcome") auto
      with LoadSettled show ?thesis by (simp split: option.splits)
    qed simp_all
    from dispatch_other [OF other, where toISO = toISO and s = s] Cons.IH [of "dispatch toISO ev s"] same
    show ?thesis by (simp add: run_Cons split: option.splits)
  qed
qed

lemma last_loaded_at_untimed:
  "last_loaded (map snd tevs) = map_option snd (last_loaded_at tevs)"
proof (induction tevs rule: last_loaded_at.induct)
  case (2 t n d outcome tevs)
  then show ?case by (simp split: option.splits sum.splits)
qed simp_all

lemma instants_untimed: "map snd (instants now tevs) = map snd tevs"
  by (induction now tevs rule: instants.induct) simp_all

lemma clock_after_mono: "now \<le> clock_after now tevs"
proof (induction now tevs rule: clock_after.induct)
  case (2 now elapsed ev tevs)
  then show ?case by simp
qed simp

lemma last_loaded_at_instant:
  "last_loaded_at (instants now tevs) = Some (t, p) \<Longrightarrow> now \<le> t \<and> t \<le> clock_after now tevs"
proof (induction now tevs rule: instants.induct)
  case (1 now)
  then show ?case by simp
next
  case (2 now elapsed ev tevs)
  let ?next = "now + int elapsed"
  show ?case
  proof (cases "last_loaded_at (instants ?next tevs)")
    case (Some tp)
    with "2.prems" have "last_loaded_at (instants ?next tevs) = Some (t, p)"
      by (cases ev) simp_all
    from "2.IH" [OF this] show ?thesis by simp
  next
    case None
    with "2.prems" have "t = ?next"
      by (cases ev) (auto split: sum.splits)
    with clock_after_mono [of ?next tevs] show ?thesis by simp
  qed
qed

lemma map_enumerate_snd:
  assumes "\<And>i d. g (i, d) = h d"
  shows "map g (enumerate n xs) = map h xs"
  by (induction xs arbitrary: n) (simp_all add: assms)

subsection \<open>The calendar of the platform\<close>

lemma div_bounds:
  fixes x m :: int
  assumes "0 < m"
  shows "m * (x div m) \<le> x" and "x < m * (x div m) + m"
proof -
  have "m * (x div m) + x mod m = x" by (rule mult_div_mod_eq)
  moreover have "0 \<le> x mod m" "x mod m < m" using assms by simp_all
  ultimately show "m * (x div m) \<le> x" and "x < m * (x div m) + m" by linarith+
qed

lemma div_step:
  fixes a k :: int
  assumes "0 < k"
  shows "(a + 1) div k = a div k + (if (a + 1) mod k = 0 then 1 else 0)"
proof -
  have e1: "k * ((a + 1) div k) + (a + 1) mod k = a + 1" by (rule mult_div_mod_eq)
  have e0: "k * (a div k) + a mod k = a" by (rule mult_div_mod_eq)
  have r1: "0 \<le> (a + 1) mod k" "(a + 1) mod k < k" using assms by simp_all
  have r0: "0 \<le> a mod k" "a mod k < k" using assms by simp_all
  define q1 where "q1 = (a + 1) div k"
  define q0 where "q0 = a div k"
  define m1 where "m1 = (a + 1) mod k"
  define m0 where "m0 = a mod k"
  have eq: "k * (q1 - q0) = 1 + m0 - m1"
    using e1 e0 by (simp add: q1_def q0_def m1_def m0_def algebra_simps)
  have range: "- k < 1 + m0 - m1" "1 + m0 - m1 \<le> k"
    using r1 r0 unfolding m1_def m0_def by linarith+
  have "q1 - q0 = 0 \<or> q1 - q0 = 1"
  proof -
    have lo: "- k < k * (q1 - q0)" and hi: "k * (q1 - q0) \<le> k" using eq range by simp_all
    have "- 1 < q1 - q0"
    proof (rule ccontr)
      assume "\<not> - 1 < q1 - q0"
      then have "q1 - q0 \<le> - 1" by simp
      with assms have "k * (q1 - q0) \<le> k * (- 1)" by (intro mult_left_mono) simp_all
      with lo show False by simp
    qed
    moreover have "q1 - q0 \<le> 1"
    proof (rule ccontr)
      assume "\<not> q1 - q0 \<le> 1"
      then have "2 \<le> q1 - q0" by simp
      with assms have "k * 2 \<le> k * (q1 - q0)" by (intro mult_left_mono) simp_all
      with hi assms show False by simp
    qed
    ultimately have "- 1 < q1 - q0" "q1 - q0 \<le> 1" by simp_all
    then show ?thesis by linarith
  qed
  then show ?thesis
  proof
    assume z: "q1 - q0 = 0"
    with eq have "m1 = m0 + 1" by simp
    with r0 have "m1 \<noteq> 0" unfolding m0_def by linarith
    with z show ?thesis by (simp add: q1_def q0_def m1_def)
  next
    assume o: "q1 - q0 = 1"
    with eq have "m1 = 1 + m0 - k" by simp
    with r1 r0 have "m1 = 0" unfolding m0_def m1_def by linarith
    with o show ?thesis by (simp add: q1_def q0_def m1_def)
  qed
qed

lemma DayFromYear_Suc: "DayFromYear (y + 1) = DayFromYear y + DaysInYear y"
proof -
  define l4 :: int where "l4 = (if y mod 4 = 0 then 1 else 0)"
  define l100 :: int where "l100 = (if y mod 100 = 0 then 1 else 0)"
  define l400 :: int where "l400 = (if y mod 400 = 0 then 1 else 0)"
  have m4: "(y - 1969 + 1) mod 4 = y mod 4"
  proof -
    have "y - 1969 + 1 = y + 4 * (- 492)" by simp
    then show ?thesis by (simp only: mod_mult_self2)
  qed
  have m100: "(y - 1901 + 1) mod 100 = y mod 100"
  proof -
    have "y - 1901 + 1 = y + 100 * (- 19)" by simp
    then show ?thesis by (simp only: mod_mult_self2)
  qed
  have m400: "(y - 1601 + 1) mod 400 = y mod 400"
  proof -
    have "y - 1601 + 1 = y + 400 * (- 4)" by simp
    then show ?thesis by (simp only: mod_mult_self2)
  qed
  have a: "(y - 1969 + 1) div 4 = (y - 1969) div 4 + l4"
    using div_step [of 4 "y - 1969"] by (simp only: m4 l4_def)
  have b: "(y - 1901 + 1) div 100 = (y - 1901) div 100 + l100"
    using div_step [of 100 "y - 1901"] by (simp only: m100 l100_def)
  have c: "(y - 1601 + 1) div 400 = (y - 1601) div 400 + l400"
    using div_step [of 400 "y - 1601"] by (simp only: m400 l400_def)
  have shift: "y + 1 - 1969 = y - 1969 + 1" "y + 1 - 1901 = y - 1901 + 1"
    "y + 1 - 1601 = y - 1601 + 1"
    by simp_all
  define q4 where "q4 = (y - 1969) div 4"
  define q100 where "q100 = (y - 1901) div 100"
  define q400 where "q400 = (y - 1601) div 400"
  have "DayFromYear (y + 1) = 365 * (y + 1 - 1970) + (q4 + l4) - (q100 + l100) + (q400 + l400)"
    unfolding DayFromYear_def shift a b c q4_def q100_def q400_def ..
  moreover have "DayFromYear y = 365 * (y - 1970) + q4 - q100 + q400"
    unfolding DayFromYear_def q4_def q100_def q400_def ..
  ultimately have step: "DayFromYear (y + 1) = DayFromYear y + (365 + l4 - l100 + l400)"
    by (simp add: algebra_simps)
  have d: "y mod 4 = 0" if "y mod 100 = 0"
  proof -
    from that have "(4 :: int) dvd 100" "100 dvd y" by (simp_all add: mod_eq_0_iff_dvd)
    then have "4 dvd y" by (rule dvd_trans)
    then show ?thesis by (simp add: mod_eq_0_iff_dvd)
  qed
  have e: "y mod 100 = 0" if "y mod 400 = 0"
  proof -
    from that have "(100 :: int) dvd 400" "400 dvd y" by (simp_all add: mod_eq_0_iff_dvd)
    then have "100 dvd y" by (rule dvd_trans)
    then show ?thesis by (simp add: mod_eq_0_iff_dvd)
  qed
  have "DaysInYear y = 365 + l4 - l100 + l400"
  proof (cases "y mod 4 = 0")
    case False
    with d e have "y mod 100 \<noteq> 0" "y mod 400 \<noteq> 0" by auto
    with False show ?thesis by (simp add: DaysInYear_def l4_def l100_def l400_def)
  next
    case four: True
    show ?thesis
    proof (cases "y mod 100 = 0")
      case False
      with e have "y mod 400 \<noteq> 0" by auto
      with four False show ?thesis by (simp add: DaysInYear_def l4_def l100_def l400_def)
    next
      case True
      with four show ?thesis by (simp add: DaysInYear_def l4_def l100_def l400_def)
    qed
  qed
  with step show ?thesis by simp
qed

lemma DaysInYear_range: "365 \<le> DaysInYear y \<and> DaysInYear y \<le> 366"
  by (simp add: DaysInYear_def)

text \<open>The search for the year ends: every year has at least 365 days.\<close>

termination year_search
proof (relation "measure (\<lambda>(y, d). nat (d + 1 - DayFromYear (y + 1)))")
  show "wf (measure (\<lambda>(y, d). nat (d + 1 - DayFromYear (y + 1))))" by simp
next
  fix y d :: int
  assume "DayFromYear (y + 1) \<le> d"
  moreover have "DayFromYear (y + 1 + 1) = DayFromYear (y + 1) + DaysInYear (y + 1)"
    by (rule DayFromYear_Suc)
  moreover have "365 \<le> DaysInYear (y + 1)" using DaysInYear_range by blast
  ultimately show "((y + 1, d), (y, d)) \<in> measure (\<lambda>(y, d). nat (d + 1 - DayFromYear (y + 1)))"
    by simp
qed

declare year_search.simps [simp del]

lemma DayFromYear_after: "0 \<le> k \<Longrightarrow> DayFromYear (1970 + k) \<le> 366 * k"
proof -
  assume k: "0 \<le> k"
  have eq: "DayFromYear (1970 + k) = 365 * k + (k + 1) div 4 - (k + 69) div 100 + (k + 369) div 400"
    by (simp add: DayFromYear_def add.commute)
  have a: "4 * ((k + 1) div 4) \<le> k + 1" by (rule div_bounds) simp
  have b: "k + 69 < 100 * ((k + 69) div 100) + 100" by (rule div_bounds) simp
  have c: "400 * ((k + 369) div 400) \<le> k + 369" by (rule div_bounds) simp
  show ?thesis
  proof (cases "2 \<le> k")
    case True
    with a b c show ?thesis unfolding eq by linarith
  next
    case False
    with k have "k = 0 \<or> k = 1" by linarith
    then show ?thesis unfolding eq by auto
  qed
qed

lemma DayFromYear_before: "k < 0 \<Longrightarrow> DayFromYear (1970 + k) \<le> 365 * k"
proof -
  assume k: "k < 0"
  have eq: "DayFromYear (1970 + k) = 365 * k + (k + 1) div 4 - (k + 69) div 100 + (k + 369) div 400"
    by (simp add: DayFromYear_def add.commute)
  have a: "4 * ((k + 1) div 4) \<le> k + 1" by (rule div_bounds) simp
  have b: "k + 69 < 100 * ((k + 69) div 100) + 100" by (rule div_bounds) simp
  have c: "400 * ((k + 369) div 400) \<le> k + 369" by (rule div_bounds) simp
  show ?thesis
  proof (cases "k \<le> -7")
    case True
    with a b c show ?thesis unfolding eq by linarith
  next
    case False
    with k have small: "-6 \<le> k" "k \<le> -1" by linarith+
    then have "(k + 69) div 100 = 0" "(k + 369) div 400 = 0"
      by (simp_all add: div_pos_pos_trivial)
    with a k show ?thesis unfolding eq by linarith
  qed
qed

lemma estimate_below:
  "DayFromYear (1970 + (if d < 0 then d div 365 else d div 366)) \<le> d"
proof (cases "d < 0")
  case True
  have "d div 365 < 0" using True by (simp add: div_neg_pos_less0)
  from DayFromYear_before [OF this] div_bounds(1) [of 365 d] True show ?thesis by simp
next
  case False
  then have "0 \<le> d div 366" by (simp add: pos_imp_zdiv_nonneg_iff)
  from DayFromYear_after [OF this] div_bounds(1) [of 366 d] False show ?thesis by simp
qed

lemma year_search_spec:
  "DayFromYear y \<le> d \<Longrightarrow>
   DayFromYear (year_search y d) \<le> d \<and> d < DayFromYear (year_search y d + 1)"
proof (induction y d rule: year_search.induct)
  case (1 y d)
  show ?case
  proof (cases "DayFromYear (y + 1) \<le> d")
    case True
    with "1.IH" show ?thesis by (subst (1 2) year_search.simps) simp
  next
    case False
    with "1.prems" show ?thesis by (subst (1 2) year_search.simps) simp
  qed
qed

lemma YearFromTime_spec:
  "DayFromYear (YearFromTime t) \<le> Day t \<and> Day t < DayFromYear (YearFromTime t + 1)"
  unfolding YearFromTime_def by (rule year_search_spec) (rule estimate_below)

lemma DayFromYear_mono: "y \<le> z \<Longrightarrow> DayFromYear y \<le> DayFromYear z"
proof (induction "nat (z - y)" arbitrary: z)
  case 0
  then have "z = y" by simp
  then show ?case by simp
next
  case (Suc n)
  then have "n = nat (z - 1 - y)" "y \<le> z - 1" by linarith+
  from Suc.hyps(1) [OF this] have "DayFromYear y \<le> DayFromYear (z - 1)" .
  moreover have "DayFromYear (z - 1 + 1) = DayFromYear (z - 1) + DaysInYear (z - 1)"
    by (rule DayFromYear_Suc)
  moreover have "365 \<le> DaysInYear (z - 1)" using DaysInYear_range by blast
  ultimately show ?case by simp
qed


text \<open>The year found is the year number of the language specification.\<close>

lemma YearFromTime_largest:
  "TimeFromYear (YearFromTime t) \<le> t \<and> (\<forall>y. TimeFromYear y \<le> t \<longrightarrow> y \<le> YearFromTime t)"
proof -
  from div_bounds [of msPerDay t]
  have day: "86400000 * Day t \<le> t" "t < 86400000 * Day t + 86400000"
    by (simp_all add: Day_def msPerDay_def)
  have days: "TimeFromYear y \<le> t \<longleftrightarrow> DayFromYear y \<le> Day t" for y
    using day unfolding TimeFromYear_def msPerDay_def by linarith
  have "y \<le> YearFromTime t" if "TimeFromYear y \<le> t" for y
  proof (rule ccontr)
    assume "\<not> y \<le> YearFromTime t"
    then have "YearFromTime t + 1 \<le> y" by simp
    from DayFromYear_mono [OF this] YearFromTime_spec [of t] that show False
      by (simp add: days)
  qed
  with YearFromTime_spec [of t] show ?thesis by (simp add: days)
qed

lemma DayWithinYear_range:
  "0 \<le> DayWithinYear t \<and> DayWithinYear t < DaysInYear (YearFromTime t)"
  using YearFromTime_spec [of t] DayFromYear_Suc [of "YearFromTime t"]
  by (simp add: DayWithinYear_def)

lemma MonthFromTime_range: "0 \<le> MonthFromTime t \<and> MonthFromTime t \<le> 11"
  by (simp add: MonthFromTime_def Let_def)

lemma DateFromTime_range:
  "1 \<le> DateFromTime t \<and>
   DateFromTime t \<le> (if MonthFromTime t = 1 then 28 + InLeapYear t
                      else if MonthFromTime t \<in> {3, 5, 8, 10} then 30 else 31)"
proof -
  define d where "d = DayWithinYear t"
  define l where "l = InLeapYear t"
  have l: "l = 0 \<or> l = 1" by (simp add: l_def InLeapYear_def)
  have d: "0 \<le> d" "d < 365 + l"
    using DayWithinYear_range [of t] DaysInYear_range [of "YearFromTime t"]
    by (auto simp: d_def l_def InLeapYear_def)
  from l d show ?thesis
    unfolding DateFromTime_def MonthFromTime_def Let_def d_def [symmetric] l_def [symmetric]
    by auto
qed

lemma mod_range:
  fixes x m n :: int
  assumes "0 < m" and "m - 1 = n"
  shows "0 \<le> x mod m \<and> x mod m \<le> n"
  using pos_mod_bound [OF assms(1), of x] pos_mod_sign [OF assms(1), of x] assms(2) by linarith

lemma clock_ranges:
  "0 \<le> HourFromTime t \<and> HourFromTime t \<le> 23"
  "0 \<le> MinFromTime t \<and> MinFromTime t \<le> 59"
  "0 \<le> SecFromTime t \<and> SecFromTime t \<le> 59"
  "0 \<le> msFromTime t \<and> msFromTime t \<le> 999"
  unfolding HourFromTime_def MinFromTime_def SecFromTime_def msFromTime_def
  by (rule mod_range; simp)+

lemma YearFromTime_range:
  assumes "- 62167219200000 \<le> t" and "t < 253402300800000"
  shows "0 \<le> YearFromTime t \<and> YearFromTime t \<le> 9999"
proof -
  have zero: "DayFromYear 0 = - 719528" and last: "DayFromYear 10000 = 2932897"
    by (simp_all add: DayFromYear_def)
  from div_bounds [of msPerDay t] have "86400000 * Day t \<le> t" "t < 86400000 * Day t + 86400000"
    by (simp_all add: Day_def msPerDay_def)
  with assms have day: "- 719528 \<le> Day t" "Day t < 2932897" by linarith+
  have "0 \<le> YearFromTime t"
  proof (rule ccontr)
    assume "\<not> 0 \<le> YearFromTime t"
    then have "YearFromTime t + 1 \<le> 0" by simp
    from DayFromYear_mono [OF this] zero YearFromTime_spec [of t] day show False by simp
  qed
  moreover have "YearFromTime t \<le> 9999"
  proof (rule ccontr)
    assume "\<not> YearFromTime t \<le> 9999"
    then have "10000 \<le> YearFromTime t" by simp
    from DayFromYear_mono [OF this] last YearFromTime_spec [of t] day show False by simp
  qed
  ultimately show ?thesis ..
qed

lemma below_ten:
  fixes k :: nat
  shows "k < 10 \<Longrightarrow> k = 0 \<or> k = 1 \<or> k = 2 \<or> k = 3 \<or> k = 4 \<or> k = 5 \<or> k = 6 \<or> k = 7 \<or> k = 8 \<or> k = 9"
  by (auto simp: eval_nat_numeral less_Suc_eq)

lemma digit_is_digit: "k < 10 \<Longrightarrow> is_digit (digit k)"
  using below_ten [of k] by (auto simp: is_digit_def digit_def)

lemma digit_value_digit: "k < 10 \<Longrightarrow> digit_value (digit k) = k"
  using below_ten [of k] by (auto simp: digit_value_def digit_def)

lemma is_digit_not_T: "is_digit c \<Longrightarrow> c \<noteq> CHR ''T''"
  by (auto simp: is_digit_def)

lemma two_digits:
  assumes "n < 100"
  shows "list_all is_digit (two n)" and "number (two n) = n" and "length (two n) = 2"
proof -
  have "n div 10 < 10" using assms by simp
  then have hi: "n div 10 mod 10 = n div 10" by simp
  have lo: "n mod 10 < 10" by simp
  show "list_all is_digit (two n)"
    using \<open>n div 10 < 10\<close> lo by (simp add: two_def hi digit_is_digit)
  show "number (two n) = n"
    using \<open>n div 10 < 10\<close> lo by (simp add: two_def hi number_def digit_value_digit)
  show "length (two n) = 2" by (simp add: two_def)
qed

lemma three_digits:
  assumes "n < 1000"
  shows "list_all is_digit (three n)" and "length (three n) = 3"
proof -
  have "n div 100 < 10" using assms by simp
  then have "n div 100 mod 10 = n div 100" by simp
  moreover have "n div 10 mod 10 < 10" "n mod 10 < 10" by simp_all
  ultimately show "list_all is_digit (three n)"
    using \<open>n div 100 < 10\<close> by (simp add: three_def two_def digit_is_digit)
  show "length (three n) = 3" by (simp add: three_def two_def)
qed

lemma four_digits:
  assumes "n < 10000"
  shows "list_all is_digit (four n)" and "number (four n) = n" and "length (four n) = 4"
proof -
  have a: "n div 1000 < 10" using assms by simp
  then have hi: "n div 1000 mod 10 = n div 1000" by simp
  have b: "n div 100 mod 10 < 10" and c: "n div 10 mod 10 < 10" and d: "n mod 10 < 10"
    by simp_all
  show "list_all is_digit (four n)"
    using a b c d by (simp add: four_def three_def two_def hi digit_is_digit)
  have "n = 10 * (n div 10) + n mod 10" by simp
  also have "n div 10 = 10 * (n div 10 div 10) + n div 10 mod 10" by simp
  also have "n div 10 div 10 = n div 100" by (simp add: div_mult2_eq)
  also have "n div 100 = 10 * (n div 100 div 10) + n div 100 mod 10" by simp
  also have "n div 100 div 10 = n div 1000" by (simp add: div_mult2_eq)
  finally have "n = 1000 * (n div 1000) + 100 * (n div 100 mod 10) + 10 * (n div 10 mod 10) + n mod 10"
    by simp
  then show "number (four n) = n"
    using a b c d by (simp add: four_def three_def two_def hi number_def digit_value_digit)
  show "length (four n) = 4" by (simp add: four_def three_def two_def)
qed

lemma length_digits [simp]:
  "length (two n) = 2" "length (three n) = 3" "length (four n) = 4"
  by (simp_all add: two_def three_def four_def)

lemma iso8601_date_fields:
  assumes "y < 10000" "1 \<le> m" "m \<le> 12" "1 \<le> d" "d \<le> days_in_month y m"
  shows "iso8601_date (four y @ ''-'' @ two m @ ''-'' @ two d)"
proof -
  have "d \<le> 31" using assms(5) by (simp add: days_in_month_def split: if_splits)
  then have d: "d < 100" by simp
  from assms have m: "m < 100" by simp
  show ?thesis
    unfolding iso8601_date_def
    using assms four_digits [OF assms(1)] two_digits [OF m] two_digits [OF d]
    by (simp add: nth_append)
qed

lemma iso8601_time_fields:
  assumes "h \<le> 23" "mi \<le> 59" "sec \<le> 59" "ms \<le> 999"
  shows "iso8601_time (two h @ '':'' @ two mi @ '':'' @ two sec @ ''.'' @ three ms @ ''Z'')"
proof -
  from assms have h: "h < 100" and mi: "mi < 100" and sec: "sec < 100" and ms: "ms < 1000"
    by simp_all
  show ?thesis
    unfolding iso8601_time_def
    using assms two_digits [OF h] two_digits [OF mi] two_digits [OF sec] three_digits [OF ms]
    by (simp add: nth_append)
qed

lemma iso8601_fields:
  assumes "iso8601_date date" and "iso8601_time time"
  shows "iso8601 (date @ ''T'' @ time)"
proof -
  from assms(1) have "length date = 10" by (simp add: iso8601_date_def)
  with assms show ?thesis by (simp add: iso8601_def nth_append)
qed

lemma date_before_T:
  assumes "iso8601_date date"
  shows "takeWhile (\<lambda>c. c \<noteq> CHR ''T'') (date @ ''T'' @ time) = date"
proof -
  from assms have len: "length date = 10"
    and year: "list_all is_digit (take 4 date)"
    and month: "list_all is_digit (take 2 (drop 5 date))"
    and day: "list_all is_digit (drop 8 date)"
    and dashes: "date ! 4 = CHR ''-''" "date ! 7 = CHR ''-''"
    by (simp_all add: iso8601_date_def)
  have "c \<noteq> CHR ''T''" if "c \<in> set date" for c
  proof -
    from that len obtain i where i: "i < 10" "c = date ! i"
      by (auto simp: in_set_conv_nth)
    then consider "i < 4" | "i = 4" | "i = 5 \<or> i = 6" | "i = 7" | "i = 8 \<or> i = 9"
      by linarith
    then show ?thesis
    proof cases
      case 1
      with len have "take 4 date ! i \<in> set (take 4 date)" by (intro nth_mem) simp
      with 1 i year have "is_digit c" by (simp add: list_all_iff)
      then show ?thesis by (rule is_digit_not_T)
    next
      case 2
      with i dashes show ?thesis by simp
    next
      case 3
      with len have "take 2 (drop 5 date) ! (i - 5) \<in> set (take 2 (drop 5 date))"
        by (intro nth_mem) auto
      moreover from 3 len have "take 2 (drop 5 date) ! (i - 5) = date ! i" by auto
      ultimately have "is_digit c" using i month by (simp add: list_all_iff)
      then show ?thesis by (rule is_digit_not_T)
    next
      case 4
      with i dashes show ?thesis by simp
    next
      case 5
      with len have "drop 8 date ! (i - 8) \<in> set (drop 8 date)"
        by (intro nth_mem) auto
      moreover from 5 len have "drop 8 date ! (i - 8) = date ! i" by auto
      ultimately have "is_digit c" using i day by (simp add: list_all_iff)
      then show ?thesis by (rule is_digit_not_T)
    qed
  qed
  then show ?thesis by (simp add: takeWhile_append2)
qed

lemma toISOString_valid:
  assumes "- 62167219200000 \<le> t" and "t < 253402300800000"
  shows "\<exists>date time. toISOString t = date @ ''T'' @ time \<and> iso8601_date date \<and> iso8601_time time"
proof -
  define y where "y = nat (YearFromTime t)"
  define m where "m = nat (MonthFromTime t + 1)"
  define d where "d = nat (DateFromTime t)"
  have year: "0 \<le> YearFromTime t" "YearFromTime t \<le> 9999"
    using YearFromTime_range [OF assms] by simp_all
  then have y: "y < 10000" "int y = YearFromTime t" by (simp_all add: y_def)
  have month: "0 \<le> MonthFromTime t" "MonthFromTime t \<le> 11"
    using MonthFromTime_range [of t] by simp_all
  then have m: "1 \<le> m" "m \<le> 12" "int m = MonthFromTime t + 1" by (simp_all add: m_def)
  have date: "1 \<le> DateFromTime t"
    "DateFromTime t \<le> (if MonthFromTime t = 1 then 28 + InLeapYear t
                      else if MonthFromTime t \<in> {3, 5, 8, 10} then 30 else 31)"
    using DateFromTime_range [of t] by simp_all
  have d: "1 \<le> d" "d \<le> days_in_month y m"
  proof -
    from date(1) show "1 \<le> d" by (simp add: d_def)
    have "int d = DateFromTime t" using date(1) by (simp add: d_def)
    moreover have "int (days_in_month y m) =
        (if MonthFromTime t = 1 then 28 + InLeapYear t
         else if MonthFromTime t \<in> {3, 5, 8, 10} then 30 else 31)"
    proof -
      have "m = 2 \<longleftrightarrow> MonthFromTime t = 1" "m = 4 \<longleftrightarrow> MonthFromTime t = 3"
        "m = 6 \<longleftrightarrow> MonthFromTime t = 5" "m = 9 \<longleftrightarrow> MonthFromTime t = 8"
        "m = 11 \<longleftrightarrow> MonthFromTime t = 10"
        using m(3) by linarith+
      then show ?thesis by (simp add: days_in_month_def InLeapYear_def y(2))
    qed
    ultimately show "d \<le> days_in_month y m" using date(2) by linarith
  qed
  have "iso8601_date (four y @ ''-'' @ two m @ ''-'' @ two d)"
    using y(1) m(1,2) d by (rule iso8601_date_fields)
  moreover have "iso8601_time (two (nat (HourFromTime t)) @ '':'' @ two (nat (MinFromTime t)) @ '':'' @
      two (nat (SecFromTime t)) @ ''.'' @ three (nat (msFromTime t)) @ ''Z'')"
  proof (rule iso8601_time_fields)
    show "nat (HourFromTime t) \<le> 23" using clock_ranges(1) [of t] by linarith
    show "nat (MinFromTime t) \<le> 59" using clock_ranges(2) [of t] by linarith
    show "nat (SecFromTime t) \<le> 59" using clock_ranges(3) [of t] by linarith
    show "nat (msFromTime t) \<le> 999" using clock_ranges(4) [of t] by linarith
  qed
  moreover have "toISOString t = (four y @ ''-'' @ two m @ ''-'' @ two d) @ ''T'' @
      (two (nat (HourFromTime t)) @ '':'' @ two (nat (MinFromTime t)) @ '':'' @
       two (nat (SecFromTime t)) @ ''.'' @ three (nat (msFromTime t)) @ ''Z'')"
    using year by (simp add: toISOString_def year_string_def y_def m_def d_def)
  ultimately show ?thesis by blast
qed

section \<open>The view model\<close>

text \<open>
  Claim C1, as stated, fails at \<open>NaN\<close>: it does not lie within \<open>[10, 500]\<close>, yet both
  comparisons of the source are false for it and no message is returned.
\<close>

theorem validateParameters_accepts_NaN:
  "\<not> in_interval 10 500 NaN \<and> in_interval 7 90 (Num 30) \<and> validateParameters NaN (Num 30) = []"
  by (simp add: validateParameters_def in_interval_def js_gt_def)

text \<open>
  Claim C1, amended. For every pair of numbers, \<open>validateParameters\<close> returns one message
  for each parameter that is not \<open>NaN\<close> and does not lie within its interval,
  \<open>[10, 500]\<close> for the number of points and \<open>[7, 90]\<close> for the days, in that order, and
  no message for a parameter that lies within its interval or is \<open>NaN\<close>; so it returns
  the empty list when both lie within. The message about one parameter does not depend
  on the other parameter: there is no cross-field rule.
\<close>

theorem validateParameters_one_message_per_violated_bound:
  "validateParameters n d =
     (if n = NaN \<or> in_interval 10 500 n then []
      else [''Number of points must be between 10 and 500'']) @
     (if d = NaN \<or> in_interval 7 90 d then []
      else [''Days back must be between 7 and 90''])"
  by (cases n; cases d) (auto simp: validateParameters_def in_interval_def js_gt_def)

text \<open>
  Claim C2, as stated, fails: the source has no \<open>HttpError\<close> and no \<open>ApiError\<close>. Both
  \<open>throw\<close> statements construct a plain \<open>Error\<close>, so the two failures differ in their
  message only, and not always: a response with status 500 and a payload with
  \<open>success: false\<close> whose \<open>error\<close> field reads \<open>HTTP error! status: 500\<close> make
  \<open>fetchUHIData\<close> throw the same value.
\<close>

theorem fetchUHIData_failures_not_distinguishable:
  "fetchUHIData (Num 100) (Num 30)
     (Resolved \<lparr> status = 500, json = Inl (JsError ''SyntaxError'' ''Unexpected token'') \<rparr>) =
     Inl (JsError ''Error'' ''HTTP error! status: 500'') \<and>
   fetchUHIData (Num 100) (Num 30)
     (Resolved \<lparr> status = 200,
                 json = Inr \<lparr> result_success = False, result_data = [], result_statistics = JNull,
                             result_error = Some ''HTTP error! status: 500'' \<rparr> \<rparr>) =
     Inl (JsError ''Error'' ''HTTP error! status: 500'')"
  by (simp add: fetchUHIData_def await_fetch_def ok_def js_or_def digit_def dec.simps)

text \<open>
  Claim C2, amended. \<open>fetchUHIData\<close> throws an \<open>Error\<close> with the message
  \<open>HTTP error! status: <code>\<close> when the status is not in 200-299; it throws an \<open>Error\<close>
  whose message is the non-empty \<open>error\<close> field of the payload, or \<open>API returned error\<close>
  without one, when the payload's success flag is false; otherwise it returns the decoded
  payload. The two failures are of the one type \<open>Error\<close>. A network failure and a body
  that is not JSON throw the error of the platform, unchanged.
\<close>

theorem fetchUHIData_outcomes:
  "fetchUHIData n d (Rejected e) = Inl e \<and>
   (\<not> ok r \<longrightarrow>
      fetchUHIData n d (Resolved r) =
        Inl (JsError ''Error'' (''HTTP error! status: '' @ dec (status r)))) \<and>
   (ok r \<and> json r = Inl e \<longrightarrow> fetchUHIData n d (Resolved r) = Inl e) \<and>
   (ok r \<and> json r = Inr p \<and> \<not> result_success p \<longrightarrow>
      fetchUHIData n d (Resolved r) =
        Inl (JsError ''Error'' (js_or (result_error p) ''API returned error''))) \<and>
   (ok r \<and> json r = Inr p \<and> result_success p \<longrightarrow> fetchUHIData n d (Resolved r) = Inr p)"
  by (simp add: fetchUHIData_def await_fetch_def)

theorem fetchUHIData_outcomes_witness:
  "fetchUHIData (Num 100) (Num 30)
     (Resolved \<lparr> status = 404, json = Inl (JsError ''SyntaxError'' ''Unexpected token'') \<rparr>) =
     Inl (JsError ''Error'' ''HTTP error! status: 404'') \<and>
   fetchUHIData (Num 100) (Num 30)
     (Resolved \<lparr> status = 200,
                 json = Inr \<lparr> result_success = False, result_data = [],
                             result_statistics = JNull, result_error = None \<rparr> \<rparr>) =
     Inl (JsError ''Error'' ''API returned error'') \<and>
   fetchUHIData (Num 100) (Num 30)
     (Resolved \<lparr> status = 200,
                 json = Inr \<lparr> result_success = True, result_data = [],
                             result_statistics = JNull, result_error = None \<rparr> \<rparr>) =
     Inr \<lparr> result_success = True, result_data = [], result_statistics = JNull,
           result_error = None \<rparr>"
  using
    fetchUHIData_outcomes [where n = "Num 100" and d = "Num 30"
      and r = "\<lparr> status = 404, json = Inl (JsError ''SyntaxError'' ''Unexpected token'') \<rparr>"]
    fetchUHIData_outcomes [where n = "Num 100" and d = "Num 30"
      and r = "\<lparr> status = 200,
                 json = Inr \<lparr> result_success = False, result_data = [],
                             result_statistics = JNull, result_error = None \<rparr> \<rparr>"
      and p = "\<lparr> result_success = False, result_data = [],
                 result_statistics = JNull, result_error = None \<rparr>"]
    fetchUHIData_outcomes [where n = "Num 100" and d = "Num 30"
      and r = "\<lparr> status = 200,
                 json = Inr \<lparr> result_success = True, result_data = [],
                             result_statistics = JNull, result_error = None \<rparr> \<rparr>"
      and p = "\<lparr> result_success = True, result_data = [],
                 result_statistics = JNull, result_error = None \<rparr>"]
  by (simp add: ok_def js_or_def dec.simps digit_def)

text \<open>
  Claim C5. \<open>checkHealth\<close> returns a boolean whatever the request does, and never
  throws: a network failure gives \<open>false\<close>, a response gives its \<open>ok\<close> flag.
\<close>

theorem checkHealth_never_throws:
  "(\<exists>b. checkHealth outcome = Inr b) \<and>
   checkHealth (Rejected e) = Inr False \<and>
   checkHealth (Resolved r) = Inr (ok r)"
  by (cases outcome) (auto simp: checkHealth_def try_catch_def await_fetch_def)

text \<open>
  Claim C10. There is no integrality check: every pair inside the two intervals is
  accepted, and so is the pair \<open>(10.5, 7.5)\<close>, neither component of which is an integer.
\<close>

theorem validateParameters_accepts_non_integers:
  "(10 \<le> n \<and> n \<le> 500 \<and> 7 \<le> d \<and> d \<le> 90 \<longrightarrow> validateParameters (Num n) (Num d) = []) \<and>
   validateParameters (Num 10.5) (Num 7.5) = [] \<and> (10.5 :: real) \<notin> \<int> \<and> (7.5 :: real) \<notin> \<int>"
proof -
  have half: "(x :: real) \<notin> \<int>" if "2 * x = 2 * of_int k + 1" for x k
  proof
    assume "x \<in> \<int>"
    then obtain m where "x = of_int m" by (auto elim: Ints_cases)
    with that have "(of_int (2 * m) :: real) = of_int (2 * k + 1)" by simp
    then have "2 * m = 2 * k + 1" by (simp only: of_int_eq_iff)
    then show False by presburger
  qed
  have "(10.5 :: real) \<notin> \<int>" by (rule half [of _ 10]) simp
  moreover have "(7.5 :: real) \<notin> \<int>" by (rule half [of _ 7]) simp
  moreover have "validateParameters (Num 10.5) (Num 7.5) = []"
    by (simp add: validateParameters_def js_gt_def)
  ultimately show ?thesis by (auto simp: validateParameters_def js_gt_def)
qed

theorem validateParameters_accepts_non_integers_witness:
  "(10 :: real) \<le> 21 / 2 \<and> (21 / 2 :: real) \<le> 500 \<and> (7 :: real) \<le> 15 / 2 \<and> (15 / 2 :: real) \<le> 90 \<and>
   validateParameters (Num (21 / 2)) (Num (15 / 2)) = []"
  using validateParameters_accepts_non_integers [of "21 / 2" "15 / 2"] by simp

section \<open>The load cycle\<close>

text \<open>
  Claim C3. A load cycle first sets the loading flag and clears the error, then
  validates the current parameters. With an invalid parameter it ends with the validation
  messages as the error and sends no request. Otherwise it sends the one request; on
  success it ends with the data and the statistics of the payload stored and no error, on
  failure with the message of the error stored: for a status outside 200-299 the message
  ends with the status code, for a payload with a false success flag it is the payload's
  \<open>error\<close> field or the fallback \<open>API returned error\<close>. The loading flag is off at the end
  of every branch, and the error is empty exactly after a successful load.
\<close>

theorem loadUHIData_cycle:
  fixes s :: shell and outcome :: fetch_outcome
  defines "errors \<equiv> validateParameters (numPoints s) (daysBack s)"
    and "cycle \<equiv> loadUHIData s outcome"
    and "s' \<equiv> exec (loadUHIData s outcome) s"
  shows
    "take 2 cycle = [SetLoading True, SetError None] \<and> loading (exec (take 1 cycle) s) \<and>
     (errors \<noteq> [] \<longrightarrow>
        s' = s\<lparr>loading := False, error := Some (join ''. '' errors)\<rparr> \<and> requests cycle = []) \<and>
     (errors = [] \<longrightarrow> requests cycle = [UhiRequest (numPoints s) (daysBack s)]) \<and>
     (errors = [] \<and> fetchUHIData (numPoints s) (daysBack s) outcome = Inr p \<longrightarrow>
        s' = s\<lparr>loading := False, error := None, uhiData := Some (result_data p),
                statistics := Some (result_statistics p)\<rparr>) \<and>
     (errors = [] \<and> fetchUHIData (numPoints s) (daysBack s) outcome = Inl e \<longrightarrow>
        s' = s\<lparr>loading := False,
                error := Some (js_or (Some (message e)) ''Failed to load UHI data'')\<rparr>) \<and>
     (errors = [] \<and> outcome = Resolved r \<and> \<not> ok r \<longrightarrow>
        error s' = Some (''HTTP error! status: '' @ dec (status r)) \<and>
        sublist (dec (status r)) (the (error s'))) \<and>
     (errors = [] \<and> outcome = Resolved r \<and> ok r \<and> json r = Inr q \<and> \<not> result_success q \<longrightarrow>
        error s' = Some (js_or (result_error q) ''API returned error'')) \<and>
     \<not> loading s' \<and>
     (error s' = None \<longleftrightarrow>
        errors = [] \<and> (\<exists>p. fetchUHIData (numPoints s) (daysBack s) outcome = Inr p))"
proof -
  have start: "take 2 cycle = [SetLoading True, SetError None]"
    "loading (exec (take 1 cycle) s)"
    by (simp_all add: cycle_def loadUHIData_def loadUHIData_begin_def exec_def)
  have invalid: "s' = s\<lparr>loading := False, error := Some (join ''. '' errors)\<rparr> \<and> requests cycle = []"
    if "errors \<noteq> []"
    using that
    by (simp add: s'_def cycle_def errors_def loadUHIData_def loadUHIData_begin_def
        loadUHIData_suspends_def exec_def Let_def)
  have sent: "requests cycle = [UhiRequest (numPoints s) (daysBack s)]" if "errors = []"
    using that
    by (simp add: cycle_def errors_def loadUHIData_def loadUHIData_begin_def
        loadUHIData_suspends_def loadUHIData_resume_def fetchUHIData_request_def
        requests_append Let_def split: sum.splits)
  have loaded: "s' = s\<lparr>loading := False, error := None, uhiData := Some (result_data p),
                statistics := Some (result_statistics p)\<rparr>"
    if "errors = []" "fetchUHIData (numPoints s) (daysBack s) outcome = Inr p" for p
    using that
    by (simp add: s'_def errors_def loadUHIData_def loadUHIData_begin_def
        loadUHIData_suspends_def loadUHIData_resume_def exec_def Let_def)
  have failed: "s' = s\<lparr>loading := False,
                error := Some (js_or (Some (message e)) ''Failed to load UHI data'')\<rparr>"
    if "errors = []" "fetchUHIData (numPoints s) (daysBack s) outcome = Inl e" for e
    using that
    by (simp add: s'_def errors_def loadUHIData_def loadUHIData_begin_def
        loadUHIData_suspends_def loadUHIData_resume_def exec_def Let_def)
  have http: "error s' = Some (''HTTP error! status: '' @ dec (status r)) \<and>
        sublist (dec (status r)) (the (error s'))"
    if "errors = []" "outcome = Resolved r" "\<not> ok r"
  proof -
    have "fetchUHIData (numPoints s) (daysBack s) outcome =
        Inl (JsError ''Error'' (''HTTP error! status: '' @ dec (status r)))"
      using that by (simp add: fetchUHIData_def await_fetch_def)
    from failed [OF that(1) this]
    have "error s' = Some (''HTTP error! status: '' @ dec (status r))"
      by (simp add: js_or_def)
    moreover have "sublist (dec (status r)) (''HTTP error! status: '' @ dec (status r))"
      unfolding sublist_def by (intro exI [of _ "''HTTP error! status: ''"] exI [of _ "[]"]) simp
    ultimately show ?thesis by simp
  qed
  have api: "error s' = Some (js_or (result_error q) ''API returned error'')"
    if "errors = []" "outcome = Resolved r" "ok r" "json r = Inr q" "\<not> result_success q"
  proof -
    have "fetchUHIData (numPoints s) (daysBack s) outcome =
        Inl (JsError ''Error'' (js_or (result_error q) ''API returned error''))"
      using that by (simp add: fetchUHIData_def await_fetch_def)
    from failed [OF that(1) this] show ?thesis
      by (simp add: js_or_Some_nonempty js_or_nonempty)
  qed
  have idle: "\<not> loading s'"
    by (cases "errors = []"; cases "fetchUHIData (numPoints s) (daysBack s) outcome")
      (use invalid loaded failed in auto)
  have banner: "error s' = None \<longleftrightarrow>
        errors = [] \<and> (\<exists>p. fetchUHIData (numPoints s) (daysBack s) outcome = Inr p)"
  proof (cases "errors = []")
    case False
    with invalid show ?thesis by simp
  next
    case True
    show ?thesis
    proof (cases "fetchUHIData (numPoints s) (daysBack s) outcome")
      case (Inl e)
      with failed [OF True Inl] True show ?thesis by simp
    next
      case (Inr p)
      with loaded [OF True Inr] True show ?thesis by simp
    qed
  qed
  from start invalid sent loaded failed http api idle banner show ?thesis by blast
qed

theorem loadUHIData_cycle_witness:
  "exec (loadUHIData (init\<lparr>numPoints := Num 5\<rparr>) (Rejected (JsError ''TypeError'' ''Failed to fetch'')))
       (init\<lparr>numPoints := Num 5\<rparr>) =
     init\<lparr>numPoints := Num 5, loading := False,
          error := Some ''Number of points must be between 10 and 500''\<rparr> \<and>
   requests (loadUHIData (init\<lparr>numPoints := Num 5\<rparr>)
       (Rejected (JsError ''TypeError'' ''Failed to fetch''))) = [] \<and>
   error (exec (loadUHIData init
       (Resolved \<lparr> status = 503, json = Inl (JsError ''SyntaxError'' ''Unexpected token'') \<rparr>)) init) =
     Some ''HTTP error! status: 503'' \<and>
   error (exec (loadUHIData init
       (Resolved \<lparr> status = 200,
                   json = Inr \<lparr> result_success = False, result_data = [],
                               result_statistics = JNull,
                               result_error = Some ''no weather data'' \<rparr> \<rparr>)) init) =
     Some ''no weather data'' \<and>
   exec (loadUHIData init
       (Resolved \<lparr> status = 200,
                   json = Inr \<lparr> result_success = True,
                               result_data = [\<lparr> lat = 20.3, lon = 85.82, zone = 2,
                                                recommendation = ''cool roofs'' \<rparr>],
                               result_statistics = JNull, result_error = None \<rparr> \<rparr>)) init =
     init\<lparr>loading := False,
          uhiData := Some [\<lparr> lat = 20.3, lon = 85.82, zone = 2, recommendation = ''cool roofs'' \<rparr>],
          statistics := Some JNull\<rparr>"
proof -
  let ?bad = "init\<lparr>numPoints := Num 5\<rparr>"
  let ?down = "Rejected (JsError ''TypeError'' ''Failed to fetch'')"
  let ?r503 = "\<lparr> status = 503, json = Inl (JsError ''SyntaxError'' ''Unexpected token'') \<rparr>"
  let ?q = "\<lparr> result_success = False, result_data = [], result_statistics = JNull,
              result_error = Some ''no weather data'' \<rparr>"
  let ?p = "\<lparr> result_success = True,
              result_data = [\<lparr> lat = 20.3, lon = 85.82, zone = 2, recommendation = ''cool roofs'' \<rparr>],
              result_statistics = JNull, result_error = None \<rparr>"
  have invalid: "validateParameters (numPoints ?bad) (daysBack ?bad) =
      [''Number of points must be between 10 and 500'']"
    by (simp add: validateParameters_def js_gt_def init_def)
  have valid: "validateParameters (numPoints init) (daysBack init) = []"
    by (simp add: validateParameters_def js_gt_def init_def)
  have not_ok: "\<not> ok ?r503" and is_ok: "ok \<lparr> status = 200, json = Inr ?q \<rparr>"
    by (simp_all add: ok_def)
  have fetched: "fetchUHIData (numPoints init) (daysBack init)
      (Resolved \<lparr> status = 200, json = Inr ?p \<rparr>) = Inr ?p"
    by (simp add: fetchUHIData_def await_fetch_def ok_def)
  from loadUHIData_cycle [where s = ?bad and outcome = ?down] invalid
  have one: "exec (loadUHIData ?bad ?down) ?bad =
      ?bad\<lparr>loading := False, error := Some ''Number of points must be between 10 and 500''\<rparr>"
    "requests (loadUHIData ?bad ?down) = []"
    by simp_all
  from loadUHIData_cycle [where s = init and outcome = "Resolved ?r503" and r = ?r503] valid not_ok
  have two: "error (exec (loadUHIData init (Resolved ?r503)) init) =
      Some (''HTTP error! status: '' @ dec 503)"
    by simp
  from loadUHIData_cycle [where s = init
      and outcome = "Resolved \<lparr> status = 200, json = Inr ?q \<rparr>"
      and r = "\<lparr> status = 200, json = Inr ?q \<rparr>" and q = ?q] valid is_ok
  have three: "error (exec (loadUHIData init (Resolved \<lparr> status = 200, json = Inr ?q \<rparr>)) init) =
      Some (js_or (result_error ?q) ''API returned error'')"
    by simp
  from loadUHIData_cycle [where s = init
      and outcome = "Resolved \<lparr> status = 200, json = Inr ?p \<rparr>" and p = ?p] valid fetched
  have four: "exec (loadUHIData init (Resolved \<lparr> status = 200, json = Inr ?p \<rparr>)) init =
      init\<lparr>loading := False, error := None, uhiData := Some (result_data ?p),
           statistics := Some (result_statistics ?p)\<rparr>"
    by simp
  from one two three four show ?thesis
    by (simp add: js_or_def dec.simps digit_def init_def)
qed

text \<open>
  Claim C4. After every trace of events from the initial state, the data and the
  statistics on display are both empty, when no load of the trace has succeeded, or are
  the data and the statistics of one payload, that of the last load that succeeded. And
  every single step either leaves both as they were or is a load that settles
  successfully and sets both from its own payload.
\<close>

theorem displayed_pair_from_one_response:
  "(case last_loaded evs of
      None \<Rightarrow> uhiData (run toISO evs init) = None \<and> statistics (run toISO evs init) = None
    | Some p \<Rightarrow> uhiData (run toISO evs init) = Some (result_data p) \<and>
               statistics (run toISO evs init) = Some (result_statistics p)) \<and>
   ((uhiData (dispatch toISO ev s) = uhiData s \<and> statistics (dispatch toISO ev s) = statistics s) \<or>
    (\<exists>n d outcome p. ev = LoadSettled n d outcome \<and> fetchUHIData n d outcome = Inr p \<and>
        uhiData (dispatch toISO ev s) = Some (result_data p) \<and>
        statistics (dispatch toISO ev s) = Some (result_statistics p)))"
proof -
  have "uhiData init = None" "statistics init = None" by (simp_all add: init_def)
  with run_data [of toISO evs init]
  have trace: "case last_loaded evs of
      None \<Rightarrow> uhiData (run toISO evs init) = None \<and> statistics (run toISO evs init) = None
    | Some p \<Rightarrow> uhiData (run toISO evs init) = Some (result_data p) \<and>
               statistics (run toISO evs init) = Some (result_statistics p)"
    by (simp split: option.splits)
  have step: "(uhiData (dispatch toISO ev s) = uhiData s \<and> statistics (dispatch toISO ev s) = statistics s) \<or>
    (\<exists>n d outcome p. ev = LoadSettled n d outcome \<and> fetchUHIData n d outcome = Inr p \<and>
        uhiData (dispatch toISO ev s) = Some (result_data p) \<and>
        statistics (dispatch toISO ev s) = Some (result_statistics p))"
  proof (cases "\<exists>n d outcome p. ev = LoadSettled n d outcome \<and> fetchUHIData n d outcome = Inr p")
    case True
    then obtain n d outcome p where ev: "ev = LoadSettled n d outcome"
      and p: "fetchUHIData n d outcome = Inr p" by blast
    from dispatch_loaded [OF p, of toISO s] ev p show ?thesis by blast
  next
    case False
    from dispatch_other [OF this, where toISO = toISO and s = s] show ?thesis by simp
  qed
  from trace step show ?thesis by simp
qed

text \<open>
  Claim C9. A load cycle that fails, whatever the reason (an invalid parameter, a
  network failure, a status outside 200-299, a body that is not JSON, a payload with a
  false success flag), leaves the data and the statistics as they were: no action of
  the cycle writes either.
\<close>

theorem failed_load_keeps_data:
  assumes "validateParameters (numPoints s) (daysBack s) \<noteq> [] \<or>
           (\<exists>e. outcome = Rejected e) \<or>
           (\<exists>r. outcome = Resolved r \<and>
                (\<not> ok r \<or> (\<exists>e. json r = Inl e) \<or> (\<exists>p. json r = Inr p \<and> \<not> result_success p)))"
  shows "uhiData (exec (loadUHIData s outcome) s) = uhiData s \<and>
         statistics (exec (loadUHIData s outcome) s) = statistics s \<and>
         (\<forall>a \<in> set (loadUHIData s outcome). \<not> writes_data a)"
proof -
  have "\<forall>a \<in> set (loadUHIData s outcome). \<not> writes_data a"
  proof (cases "validateParameters (numPoints s) (daysBack s) = []")
    case False
    then show ?thesis
      using begin_no_writes [of s] by (simp add: loadUHIData_def loadUHIData_suspends_def)
  next
    case True
    with assms fetchUHIData_fails [of outcome "numPoints s" "daysBack s"]
    obtain e where "fetchUHIData (numPoints s) (daysBack s) outcome = Inl e"
      by blast
    then show ?thesis
      using begin_no_writes [of s]
      by (auto simp: loadUHIData_def loadUHIData_resume_def)
  qed
  with exec_no_writes [of "loadUHIData s outcome" s] show ?thesis by blast
qed

theorem failed_load_keeps_data_witness:
  "\<not> ok \<lparr> status = 503, json = Inl (JsError ''SyntaxError'' ''Unexpected token'') \<rparr> \<and>
   uhiData (exec (loadUHIData
       (init\<lparr>uhiData := Some [\<lparr> lat = 20.3, lon = 85.82, zone = 2, recommendation = ''cool roofs'' \<rparr>],
             statistics := Some (JNumber 1), loading := False, backendHealthy := True\<rparr>)
       (Resolved \<lparr> status = 503, json = Inl (JsError ''SyntaxError'' ''Unexpected token'') \<rparr>))
       (init\<lparr>uhiData := Some [\<lparr> lat = 20.3, lon = 85.82, zone = 2, recommendation = ''cool roofs'' \<rparr>],
             statistics := Some (JNumber 1), loading := False, backendHealthy := True\<rparr>)) =
     Some [\<lparr> lat = 20.3, lon = 85.82, zone = 2, recommendation = ''cool roofs'' \<rparr>] \<and>
   statistics (exec (loadUHIData
       (init\<lparr>uhiData := Some [\<lparr> lat = 20.3, lon = 85.82, zone = 2, recommendation = ''cool roofs'' \<rparr>],
             statistics := Some (JNumber 1), loading := False, backendHealthy := True\<rparr>)
       (Resolved \<lparr> status = 503, json = Inl (JsError ''SyntaxError'' ''Unexpected token'') \<rparr>))
       (init\<lparr>uhiData := Some [\<lparr> lat = 20.3, lon = 85.82, zone = 2, recommendation = ''cool roofs'' \<rparr>],
             statistics := Some (JNumber 1), loading := False, backendHealthy := True\<rparr>)) =
     Some (JNumber 1)"
proof -
  let ?r = "\<lparr> status = 503, json = Inl (JsError ''SyntaxError'' ''Unexpected token'') \<rparr>"
  have down: "\<not> ok ?r" by (simp add: ok_def)
  then have "\<exists>r. Resolved ?r = Resolved r \<and>
      (\<not> ok r \<or> (\<exists>e. json r = Inl e) \<or> (\<exists>p. json r = Inr p \<and> \<not> result_success p))"
    by blast
  then show ?thesis
    using down failed_load_keeps_data [where outcome = "Resolved ?r"
        and s = "init\<lparr>uhiData := Some [\<lparr> lat = 20.3, lon = 85.82, zone = 2, recommendation = ''cool roofs'' \<rparr>],
             statistics := Some (JNumber 1), loading := False, backendHealthy := True\<rparr>"]
    by simp
qed

section \<open>The other handlers\<close>

text \<open>
  Claim C6. After a trace in which a load has succeeded, the export offers a download
  named \<open>uhi-analysis-<date>.json\<close>, where \<open><date>\<close> is a valid ISO 8601 calendar date,
  the date part of the rendering of the clock. The document holds the data and the
  statistics of the last load that succeeded, and its \<open>exportedAt\<close> is a valid ISO 8601
  timestamp, the rendering by \<open>toISOString\<close> of an instant that is no earlier than the
  instant at which that load settled. The state is unchanged and no request is sent.
  The clock reads a time in the years 0000 to 9999.
\<close>

theorem handleExportData_exports_last_loaded:
  fixes t0 :: int and tevs :: "(nat \<times> event) list" and wait elapsed :: nat
  defines "s \<equiv> run toISOString (map snd tevs) init"
    and "t1 \<equiv> clock_after t0 tevs + int wait"
    and "t2 \<equiv> clock_after t0 tevs + int wait + int elapsed"
  assumes loaded: "last_loaded_at (instants t0 tevs) = Some (t_load, p)"
    and era: "- 62167219200000 \<le> t0" "t2 < 253402300800000"
  shows "\<exists>date time.
           handleExportData toISOString t1 t2 s =
             [Download (''uhi-analysis-'' @ date @ ''.json'')
                \<lparr> doc_data = result_data p, doc_statistics = Some (result_statistics p),
                  exportedAt = toISOString t1 \<rparr>] \<and>
           toISOString t2 = date @ ''T'' @ time \<and> iso8601_date date \<and>
           iso8601 (toISOString t1) \<and> t_load \<le> t1 \<and>
           dispatch toISOString (Export t1 t2) s = s \<and>
           network_calls toISOString (Export t1 t2) s = []"
proof -
  from loaded have "last_loaded (map snd tevs) = Some p"
    using last_loaded_at_untimed [of "instants t0 tevs"] by (simp add: instants_untimed)
  with run_data [of toISOString "map snd tevs" init]
  have data: "uhiData s = Some (result_data p)" "statistics s = Some (result_statistics p)"
    by (simp_all add: s_def)
  from last_loaded_at_instant [OF loaded] have after: "t_load \<le> t1"
    by (simp add: t1_def)
  from clock_after_mono [of t0 tevs] era have range:
    "- 62167219200000 \<le> t1" "t1 < 253402300800000" "- 62167219200000 \<le> t2"
    by (simp_all add: t1_def t2_def)
  from toISOString_valid [OF range(1,2)] iso8601_fields have stamp: "iso8601 (toISOString t1)"
    by auto
  from toISOString_valid [OF range(3) era(2)] obtain date time
    where date: "toISOString t2 = date @ ''T'' @ time" "iso8601_date date"
    by blast
  from date_before_T [OF date(2), of time] date(1)
  have "takeWhile (\<lambda>c. c \<noteq> CHR ''T'') (toISOString t2) = date" by simp
  with data have export: "handleExportData toISOString t1 t2 s =
             [Download (''uhi-analysis-'' @ date @ ''.json'')
                \<lparr> doc_data = result_data p, doc_statistics = Some (result_statistics p),
                  exportedAt = toISOString t1 \<rparr>]"
    by (simp add: handleExportData_def)
  then have same: "dispatch toISOString (Export t1 t2) s = s"
    and quiet: "network_calls toISOString (Export t1 t2) s = []"
    by (simp_all add: dispatch_def network_calls_def effect_backendHealthy_def exec_def)
  from export date stamp after same quiet show ?thesis by blast
qed

theorem handleExportData_exports_last_loaded_witness:
  "last_loaded_at
     (instants 1714564800000
       [(1000, Mount (Resolved \<lparr> status = 200, json = Inl (JsError ''SyntaxError'' ''Unexpected end'') \<rparr>)),
        (2500, LoadSettled (Num 100) (Num 30)
           (Resolved \<lparr> status = 200,
                       json = Inr \<lparr> result_success = True,
                                   result_data = [\<lparr> lat = 20.3, lon = 85.82, zone = 2,
                                                    recommendation = ''cool roofs'' \<rparr>],
                                   result_statistics = JNumber 1, result_error = None \<rparr> \<rparr>))]) =
     Some (1714564803500,
           \<lparr> result_success = True,
             result_data = [\<lparr> lat = 20.3, lon = 85.82, zone = 2, recommendation = ''cool roofs'' \<rparr>],
             result_statistics = JNumber 1, result_error = None \<rparr>) \<and>
   handleExportData toISOString 1714564863500 1714564863501
     (run toISOString
        (map snd
          [(1000 :: nat, Mount (Resolved \<lparr> status = 200, json = Inl (JsError ''SyntaxError'' ''Unexpected end'') \<rparr>)),
           (2500, LoadSettled (Num 100) (Num 30)
              (Resolved \<lparr> status = 200,
                          json = Inr \<lparr> result_success = True,
                                      result_data = [\<lparr> lat = 20.3, lon = 85.82, zone = 2,
                                                       recommendation = ''cool roofs'' \<rparr>],
                                      result_statistics = JNumber 1, result_error = None \<rparr> \<rparr>))])
        init) =
     [Download ''uhi-analysis-2024-05-01.json''
        \<lparr> doc_data = [\<lparr> lat = 20.3, lon = 85.82, zone = 2, recommendation = ''cool roofs'' \<rparr>],
          doc_statistics = Some (JNumber 1), exportedAt = ''2024-05-01T12:01:03.500Z'' \<rparr>] \<and>
   iso8601 ''2024-05-01T12:01:03.500Z'' \<and> (1714564803500 :: int) \<le> 1714564863500"
proof -
  let ?p = "\<lparr> result_success = True,
              result_data = [\<lparr> lat = 20.3, lon = 85.82, zone = 2, recommendation = ''cool roofs'' \<rparr>],
              result_statistics = JNumber 1, result_error = None \<rparr>"
  let ?tevs = "[(1000 :: nat, Mount (Resolved \<lparr> status = 200, json = Inl (JsError ''SyntaxError'' ''Unexpected end'') \<rparr>)),
      (2500, LoadSettled (Num 100) (Num 30) (Resolved \<lparr> status = 200, json = Inr ?p \<rparr>))]"
  have loaded: "last_loaded_at (instants 1714564800000 ?tevs) = Some (1714564803500, ?p)"
    by (simp add: fetchUHIData_def await_fetch_def ok_def)
  have t1: "toISOString 1714564863500 = ''2024-05-01T12:01:03.500Z''"
    and t2: "toISOString 1714564863501 = ''2024-05-01T12:01:03.501Z''"
    by code_simp+
  have era: "- 62167219200000 \<le> (1714564800000 :: int)"
    "clock_after 1714564800000 ?tevs + int 60000 + int 1 < 253402300800000"
    by simp_all
  from handleExportData_exports_last_loaded [OF loaded era]
  obtain date time where export:
    "handleExportData toISOString 1714564863500 1714564863501 (run toISOString (map snd ?tevs) init) =
       [Download (''uhi-analysis-'' @ date @ ''.json'')
          \<lparr> doc_data = result_data ?p, doc_statistics = Some (result_statistics ?p),
            exportedAt = toISOString 1714564863500 \<rparr>]"
    and date: "toISOString 1714564863501 = date @ ''T'' @ time" "iso8601_date date"
    and stamp: "iso8601 (toISOString 1714564863500)"
    and after: "(1714564803500 :: int) \<le> 1714564863500"
    by auto
  from date have "date = take 10 (toISOString 1714564863501)"
    by (simp add: iso8601_date_def)
  then have "date = ''2024-05-01''" by (simp add: t2)
  with export stamp after loaded show ?thesis by (simp add: t1)
qed

text \<open>
  Claim C8. A click on a zone changes the selected zone and nothing else, and sends no
  request: the handler calls one setter, and the effect that loads does not run, since
  the flag it depends on has not changed.
\<close>

theorem handleZoneFilter_frame:
  "dispatch toISO (ZoneFilter z) s = s\<lparr>selectedZone := z\<rparr> \<and>
   network_calls toISO (ZoneFilter z) s = [] \<and>
   uhiData (dispatch toISO (ZoneFilter z) s) = uhiData s \<and>
   statistics (dispatch toISO (ZoneFilter z) s) = statistics s \<and>
   loading (dispatch toISO (ZoneFilter z) s) = loading s \<and>
   error (dispatch toISO (ZoneFilter z) s) = error s \<and>
   numPoints (dispatch toISO (ZoneFilter z) s) = numPoints s \<and>
   daysBack (dispatch toISO (ZoneFilter z) s) = daysBack s"
  by (simp add: dispatch_def network_calls_def handleZoneFilter_def effect_backendHealthy_def
      exec_def)

text \<open>
  On mount the health check is sent. When it reports a healthy backend the flag is set
  and the effect starts the first load, with the initial parameters 100 and 30;
  otherwise the error banner is set, the loading flag is cleared and nothing is loaded.
\<close>

theorem mount_health_check:
  "dispatch toISO (Mount outcome) init =
     (if checkHealth outcome = Inr True
      then init\<lparr>backendHealthy := True, loading := True, error := None\<rparr>
      else init\<lparr>backendHealthy := False, loading := False,
                error := Some ''Backend server is not responding. Please try again later.''\<rparr>) \<and>
   network_calls toISO (Mount outcome) init =
     (if checkHealth outcome = Inr True then [HealthRequest, UhiRequest (Num 100) (Num 30)] else [HealthRequest])"
proof (cases outcome)
  case (Rejected e)
  then show ?thesis
    by (simp add: dispatch_def network_calls_def checkBackendHealth_def checkHealth_def
        try_catch_def await_fetch_def effect_backendHealthy_def exec_def init_def)
next
  case (Resolved r)
  then show ?thesis
    by (cases "ok r")
      (simp_all add: dispatch_def network_calls_def checkBackendHealth_def checkHealth_def
        try_catch_def await_fetch_def effect_backendHealthy_def exec_def init_def
        loadUHIData_begin_def validateParameters_def js_gt_def fetchUHIData_request_def)
qed

text \<open>
  Moving a slider changes its parameter only; no request is sent until a load is asked
  for.
\<close>

theorem slider_change_sends_no_request:
  "dispatch toISO (NumPointsChange n) s = s\<lparr>numPoints := n\<rparr> \<and>
   network_calls toISO (NumPointsChange n) s = [] \<and>
   dispatch toISO (DaysBackChange d) s = s\<lparr>daysBack := d\<rparr> \<and>
   network_calls toISO (DaysBackChange d) s = []"
  by (simp add: dispatch_def network_calls_def effect_backendHealthy_def exec_def)

section \<open>The map view\<close>

text \<open>
  Claim C7, as stated, fails on the filter: \<open>MapView\<close> reads no property, so with the zone
  2 selected and three points of the zones 0, 1 and 2 it draws three markers where the
  specification's wording gives one.
\<close>

theorem MapView_ignores_zone_filter:
  "MapView \<lparr> prop_data = [\<lparr> lat = 20.3, lon = 85.82, zone = 0, recommendation = ''none'' \<rparr>,
                           \<lparr> lat = 20.31, lon = 85.83, zone = 1, recommendation = ''plant trees'' \<rparr>,
                           \<lparr> lat = 20.32, lon = 85.84, zone = 2, recommendation = ''cool roofs'' \<rparr>],
             prop_selectedZone = JNumber 2, prop_showHeatmap = False \<rparr>
           [\<lparr> lat = 20.3, lon = 85.82, zone = 0, recommendation = ''none'' \<rparr>,
            \<lparr> lat = 20.31, lon = 85.83, zone = 1, recommendation = ''plant trees'' \<rparr>,
            \<lparr> lat = 20.32, lon = 85.84, zone = 2, recommendation = ''cool roofs'' \<rparr>]
   \<noteq> spec_markers
        \<lparr> prop_data = [\<lparr> lat = 20.3, lon = 85.82, zone = 0, recommendation = ''none'' \<rparr>,
                        \<lparr> lat = 20.31, lon = 85.83, zone = 1, recommendation = ''plant trees'' \<rparr>,
                        \<lparr> lat = 20.32, lon = 85.84, zone = 2, recommendation = ''cool roofs'' \<rparr>],
          prop_selectedZone = JNumber 2, prop_showHeatmap = False \<rparr>"
  by (simp add: MapView_def spec_markers_def in_filter_def)

text \<open>
  Claim C7, amended. \<open>MapView\<close> draws exactly one marker for each element of its own
  fetched collection, in order, at the element's latitude and longitude, red for zone 2,
  orange for zone 1 and green for every other zone, zone 0 among them, with the
  recommendation as the title. What the parent passes, the points and the selected zone,
  has no influence: no point is excluded.
\<close>

theorem MapView_one_marker_per_fetched_point:
  "length (MapView props data) = length data \<and>
   map marker_key (MapView props data) = [0..<length data] \<and>
   map latitude (MapView props data) = map lat data \<and>
   map longitude (MapView props data) = map lon data \<and>
   map background (MapView props data) =
     map (\<lambda>d. if zone d = 2 then ''red'' else if zone d = 1 then ''orange'' else ''green'') data \<and>
   map title (MapView props data) = map recommendation data \<and>
   MapView props data = MapView props' data"
proof -
  have "length (MapView props data) = length data"
    by (simp add: MapView_def)
  moreover have "map marker_key (MapView props data) = map fst (enumerate 0 data)"
    by (simp add: MapView_def comp_def case_prod_unfold)
  then have "map marker_key (MapView props data) = [0..<length data]"
    by simp
  moreover have "map latitude (MapView props data) = map lat data"
    unfolding MapView_def map_map by (rule map_enumerate_snd) simp
  moreover have "map longitude (MapView props data) = map lon data"
    unfolding MapView_def map_map by (rule map_enumerate_snd) simp
  moreover have "map background (MapView props data) =
     map (\<lambda>d. if zone d = 2 then ''red'' else if zone d = 1 then ''orange'' else ''green'') data"
    unfolding MapView_def map_map by (rule map_enumerate_snd) simp
  moreover have "map title (MapView props data) = map recommendation data"
    unfolding MapView_def map_map by (rule map_enumerate_snd) simp
  moreover have "MapView props data = MapView props' data"
    by (simp add: MapView_def)
  ultimately show ?thesis by simp
qed

end
